theory Spec2Isabelle
  imports Complex_Main
begin

section \<open>The GAIL discriminator of ml-agents (reward\_signals/gail/model.py)\<close>

text \<open>
  The source builds a TensorFlow graph. The embedding evaluates each node as it is
  built: a definition takes the values fed to the placeholders, the random draws and
  the current variable store, and returns the value of the node (and the store, when
  the node creates variables).

  Numbers: a \<^verbatim>\<open>tf.float32\<close> value is a \<^typ>\<open>real\<close>. Rounding and overflow of the
  32-bit format are outside this model; a result that TensorFlow reports as
  \<^verbatim>\<open>inf\<close> or \<^verbatim>\<open>nan\<close> (the logarithm of a non-positive number, the mean of an empty
  tensor) is the error value \<open>NonFinite\<close>.

  Tensors: a rank-1 tensor is a list, a rank-2 tensor of shape [B, n] a list of B rows.
\<close>

subsection \<open>Errors and tensors\<close>

datatype error =
    ValueError        \<comment> \<open>graph construction: variable exists / does not exist, empty concat\<close>
  | IndexError        \<comment> \<open>Python list index out of range\<close>
  | AttributeError    \<comment> \<open>attribute read before it was assigned\<close>
  | InvalidArgument   \<comment> \<open>incompatible shapes, or a feed that does not fit its placeholder\<close>
  | FailedPrecondition \<comment> \<open>a variable read before it exists\<close>
  | NonFinite         \<comment> \<open>the float result is inf or nan\<close>

type_synonym vec = "real list"
type_synonym mat = "real list list"

datatype tensor = Scalar real | Vector vec | Matrix mat

definition bindE :: "error + 'a \<Rightarrow> ('a \<Rightarrow> error + 'b) \<Rightarrow> error + 'b" where
  "bindE r f = (case r of Inl e \<Rightarrow> Inl e | Inr x \<Rightarrow> f x)"

definition EPSILON :: real where
  "EPSILON = 1 / 10 ^ 7"

subsection \<open>Variables\<close>

text \<open>
  \<^verbatim>\<open>tf.get_variable\<close> keeps the graph's variables by name. With \<open>reuse\<close> the variable
  must exist and is returned; without, it must not exist and is created with the value
  of its initializer. \<open>trainable\<close> puts it into the collection the optimizer updates.
\<close>

record variable =
  trainable :: bool
  val :: tensor

type_synonym var_store = "string \<Rightarrow> variable option"

definition get_variable ::
  "var_store \<Rightarrow> string \<Rightarrow> bool \<Rightarrow> tensor \<Rightarrow> bool \<Rightarrow> error + (var_store \<times> tensor)" where
  "get_variable vs name is_trainable initial reuse =
     (case vs name of
        None \<Rightarrow>
          if reuse then Inl ValueError
          else Inr (vs(name \<mapsto> \<lparr>trainable = is_trainable, val = initial\<rparr>), initial)
      | Some v \<Rightarrow>
          if reuse then Inr (vs, val v) else Inl ValueError)"

subsection \<open>The model object (\_\_init\_\_, lines 31-39)\<close>

record gail_model =
  h_size :: nat
  z_size :: nat
  alpha :: real
  mutual_information :: real
  encoding_size :: nat
  gradient_penalty_weight :: real
  use_vail :: bool
  use_actions :: bool

definition GAILModel_init :: "nat \<Rightarrow> nat \<Rightarrow> bool \<Rightarrow> bool \<Rightarrow> real \<Rightarrow> gail_model" where
  "GAILModel_init h_size_arg encoding_size_arg use_actions_arg use_vail_arg gpw_arg =
     \<lparr>h_size = h_size_arg,
      z_size = 128,
      alpha = 5 / 10000,
      mutual_information = 1 / 2,
      encoding_size = encoding_size_arg,
      gradient_penalty_weight = gpw_arg,
      use_vail = use_vail_arg,
      use_actions = use_actions_arg\<rparr>"

subsection \<open>make\_beta (lines 45-61)\<close>

text \<open>
  \<open>make_beta\<close> creates the variable \<^verbatim>\<open>gail_beta\<close>: a scalar, not trainable, initialised
  to one. \<open>update_beta\<close> runs the node \<^verbatim>\<open>self.update_beta\<close> with \<open>kl_div_input\<close> fed:
  it assigns \<open>new_beta\<close> to the variable.
\<close>

definition make_beta :: "var_store \<Rightarrow> error + var_store" where
  "make_beta vs =
     (case get_variable vs ''gail_beta'' False (Scalar 1) False of
        Inl e \<Rightarrow> Inl e
      | Inr (vs', _) \<Rightarrow> Inr vs')"

definition read_beta :: "var_store \<Rightarrow> error + real" where
  "read_beta vs =
     (case vs ''gail_beta'' of
        None \<Rightarrow> Inl FailedPrecondition
      | Some v \<Rightarrow> (case val v of Scalar b \<Rightarrow> Inr b | _ \<Rightarrow> Inl InvalidArgument))"

definition update_beta :: "gail_model \<Rightarrow> real \<Rightarrow> var_store \<Rightarrow> error + var_store" where
  "update_beta m kl_div_input vs =
     (case vs ''gail_beta'' of
        None \<Rightarrow> Inl FailedPrecondition
      | Some v \<Rightarrow>
          (case val v of
             Scalar b \<Rightarrow>
               (let new_beta = max (b + alpha m * (kl_div_input - mutual_information m)) EPSILON
                in Inr (vs(''gail_beta'' \<mapsto> v\<lparr>val := Scalar new_beta\<rparr>)))
           | _ \<Rightarrow> Inl InvalidArgument))"

subsection \<open>The optimizer step (lines 299-300)\<close>

text \<open>
  \<^verbatim>\<open>optimizer.minimize(self.loss)\<close> is given no variable list, so the step it returns
  updates the variables of the trainable collection and no other variable of the model.
  What Adam writes into each of them is TensorFlow's; the model takes it as the
  parameter \<open>adam\<close>, any function of the store, the variable's name and its value.
\<close>

definition update_batch :: "(var_store \<Rightarrow> string \<Rightarrow> tensor \<Rightarrow> tensor) \<Rightarrow> var_store \<Rightarrow> var_store" where
  "update_batch adam vs =
     (\<lambda>name. case vs name of
        None \<Rightarrow> None
      | Some v \<Rightarrow> Some (if trainable v then v\<lparr>val := adam vs name (val v)\<rparr> else v))"

text \<open>
  The stores a training session can be in: \<open>make_beta\<close> has run, and after it any
  number of variable creations and lookups (the rest of the constructor), of beta
  updates and of optimizer steps, in any order.
\<close>

inductive reachable :: "var_store \<Rightarrow> bool" where
  made: "make_beta vs0 = Inr vs \<Longrightarrow> reachable vs"
| variable: "reachable vs \<Longrightarrow> get_variable vs name tr initial reuse = Inr (vs', t) \<Longrightarrow> reachable vs'"
| beta_step: "reachable vs \<Longrightarrow> update_beta m kl vs = Inr vs' \<Longrightarrow> reachable vs'"
| optimizer_step: "reachable vs \<Longrightarrow> reachable (update_batch adam vs)"

subsection \<open>make\_inputs: the expert action (lines 70-87)\<close>

text \<open>
  The policy model is the external collaborator; of it the expert action reads the
  action space type and the branch sizes \<open>act_size\<close>. A feed is the value given to the
  placeholder \<^verbatim>\<open>action_in_expert\<close>, already of a dtype: float32 in the continuous
  branch, int32 in the discrete one. A feed of the other dtype, or with rows that are
  not \<open>action_length\<close> wide, does not fit the placeholder.
\<close>

record brain_parameters =
  vector_action_space_type :: string

record policy_model =
  brain :: brain_parameters
  act_size :: "nat list"

datatype feed = Float32 "real list list" | Int32 "int list list"

definition one_hot :: "int list \<Rightarrow> nat \<Rightarrow> mat" where
  \<comment> \<open>\<^verbatim>\<open>tf.one_hot(indices, depth)\<close>: a row per index; an index outside [0, depth) gives a row of zeros\<close>
  "one_hot indices depth = map (\<lambda>i. map (\<lambda>j. if int j = i then 1 else 0) [0..<depth]) indices"

definition concat_axis1 :: "mat list \<Rightarrow> error + mat" where
  \<comment> \<open>\<^verbatim>\<open>tf.concat(ts, axis=1)\<close>: the tensors have the same number of rows\<close>
  "concat_axis1 ts =
     (case ts of
        [] \<Rightarrow> Inl ValueError
      | t # _ \<Rightarrow>
          if list_all (\<lambda>u. length u = length t) ts
          then Inr (map (\<lambda>i. concat (map (\<lambda>u. u ! i) ts)) [0..<length t])
          else Inl InvalidArgument)"

definition expert_action :: "policy_model \<Rightarrow> feed \<Rightarrow> error + mat" where
  "expert_action pm action_in_expert =
     (if vector_action_space_type (brain pm) = ''continuous'' then
        (case act_size pm of
           [] \<Rightarrow> Inl IndexError
         | action_length # _ \<Rightarrow>
             (case action_in_expert of
                Float32 rows \<Rightarrow>
                  if list_all (\<lambda>r. length r = action_length) rows then Inr rows
                  else Inl InvalidArgument
              | Int32 _ \<Rightarrow> Inl InvalidArgument))
      else
        (let action_length = length (act_size pm) in
         case action_in_expert of
           Int32 rows \<Rightarrow>
             if list_all (\<lambda>r. length r = action_length) rows then
               concat_axis1
                 (map (\<lambda>(i, act_size_i). one_hot (map (\<lambda>r. r ! i) rows) act_size_i)
                    (enumerate 0 (act_size pm)))
             else Inl InvalidArgument
         | Float32 _ \<Rightarrow> Inl InvalidArgument))"

text \<open>The spec's words: each row is encoded branch by branch, the codes joined in branch order.\<close>

definition one_hot_row :: "nat list \<Rightarrow> int list \<Rightarrow> vec" where
  "one_hot_row sizes raw =
     concat (map (\<lambda>(i, n). map (\<lambda>j. if int j = i then 1 else 0) [0..<n]) (zip raw sizes))"

subsection \<open>The intrinsic reward (create\_network, lines 231-234)\<close>

text \<open>
  \<^verbatim>\<open>tf.log\<close> of a positive number is its natural logarithm; of zero it is \<^verbatim>\<open>-inf\<close>, of a
  negative number \<^verbatim>\<open>nan\<close>. \<open>discriminator_score\<close> is the policy estimate reshaped to
  rank 1; the reward is computed entry by entry, \<open>reward_of_score\<close> being the
  expression of line 234 on one entry.
\<close>

definition tf_log :: "real \<Rightarrow> error + real" where
  "tf_log x = (if 0 < x then Inr (ln x) else Inl NonFinite)"

definition reward_of_score :: "real \<Rightarrow> error + real" where
  "reward_of_score score =
     (case tf_log (1 - score + EPSILON) of Inl e \<Rightarrow> Inl e | Inr l \<Rightarrow> Inr (- l))"

definition intrinsic_reward :: "mat \<Rightarrow> (error + real) list" where
  "intrinsic_reward policy_estimate =
     (let discriminator_score = concat policy_estimate
      in map reward_of_score discriminator_score)"

subsection \<open>Tensor operations\<close>

text \<open>
  Element-wise operations broadcast as TensorFlow does: two dimensions fit when they are
  equal or one of them is 1. \<open>draw_like draw t\<close> is a random tensor of the shape of \<open>t\<close>,
  the draw at position (i, j) being \<open>draw i j\<close>: the model takes what
  \<^verbatim>\<open>tf.random_normal\<close> and \<^verbatim>\<open>tf.random_uniform\<close> draw as a parameter.
\<close>

definition sequenceE :: "(error + 'a) list \<Rightarrow> error + 'a list" where
  "sequenceE rs = foldr (\<lambda>r acc. bindE r (\<lambda>x. bindE acc (\<lambda>xs. Inr (x # xs)))) rs (Inr [])"

definition bcast :: "('a \<Rightarrow> 'b \<Rightarrow> 'c) \<Rightarrow> 'a list \<Rightarrow> 'b list \<Rightarrow> error + 'c list" where
  "bcast f xs ys =
     (if length xs = length ys then Inr (map2 f xs ys)
      else if length xs = 1 then Inr (map (f (hd xs)) ys)
      else if length ys = 1 then Inr (map (\<lambda>x. f x (hd ys)) xs)
      else Inl InvalidArgument)"

definition bcast2 :: "(real \<Rightarrow> real \<Rightarrow> real) \<Rightarrow> mat \<Rightarrow> mat \<Rightarrow> error + mat" where
  "bcast2 f a b = bindE (bcast (bcast f) a b) sequenceE"

definition tmap :: "(real \<Rightarrow> real) \<Rightarrow> mat \<Rightarrow> mat" where
  "tmap f t = map (map f) t"

definition draw_like :: "(nat \<Rightarrow> nat \<Rightarrow> real) \<Rightarrow> mat \<Rightarrow> mat" where
  "draw_like draw t = map (\<lambda>i. map (\<lambda>j. draw i j) [0..<length (t ! i)]) [0..<length t]"

definition matmul :: "mat \<Rightarrow> mat \<Rightarrow> nat \<Rightarrow> error + mat" where
  \<comment> \<open>inputs of shape [B, n] times a kernel of shape [n, units]\<close>
  "matmul inputs kernel_t units =
     (if list_all (\<lambda>r. length r = length kernel_t) inputs \<and>
         list_all (\<lambda>k. length k = units) kernel_t
      then Inr (map (\<lambda>r. map (\<lambda>j. sum_list (map2 (\<lambda>a k. a * k ! j) r kernel_t)) [0..<units])
                  inputs)
      else Inl InvalidArgument)"

definition sigmoid :: "real \<Rightarrow> real" where
  "sigmoid x = 1 / (1 + exp (- x))"

subsection \<open>Dense layers\<close>

text \<open>
  \<^verbatim>\<open>tf.layers.dense(inputs, units, activation, name, reuse)\<close> fetches the variables
  \<^verbatim>\<open>name/kernel\<close> and \<^verbatim>\<open>name/bias\<close> (both trainable; the bias starts at zero) and
  returns \<open>activation (inputs \<cdot> kernel + bias)\<close>. What the kernel initializers draw, and
  \<^verbatim>\<open>LearningModel.swish\<close>, are not in this source file: they are the parameters
  \<open>kernel_init\<close> (the initial kernel of each named layer) and \<open>swish\<close>.
\<close>

record externals =
  swish :: "real \<Rightarrow> real"
  kernel_init :: "string \<Rightarrow> tensor"

definition dense ::
  "(string \<Rightarrow> tensor) \<Rightarrow> var_store \<Rightarrow> mat \<Rightarrow> nat \<Rightarrow> (real \<Rightarrow> real) \<Rightarrow> string \<Rightarrow> bool
     \<Rightarrow> error + (var_store \<times> mat)" where
  "dense init vs inputs units activation name reuse =
     bindE (get_variable vs (name @ ''/kernel'') True (init name) reuse) (\<lambda>(vs1, k).
     bindE (get_variable vs1 (name @ ''/bias'') True (Vector (replicate units 0)) reuse) (\<lambda>(vs2, b).
       case (k, b) of
         (Matrix kernel_t, Vector bias_t) \<Rightarrow>
           if length bias_t = units then
             bindE (matmul inputs kernel_t units) (\<lambda>y.
               Inr (vs2, map (\<lambda>r. map activation (map2 (+) r bias_t)) y))
           else Inl InvalidArgument
       | _ \<Rightarrow> Inl InvalidArgument))"

subsection \<open>create\_encoder (lines 146-204)\<close>

text \<open>
  The result holds the returned triple, the variable store after the call, and the
  attribute \<^verbatim>\<open>self.z\<close> the call assigns. \<open>noise\<close> is the draw of \<^verbatim>\<open>tf.random_normal\<close>
  of this call, \<open>noise_level\<close> the value fed to the placeholder \<^verbatim>\<open>gail_NoiseLevel\<close>
  (\<^verbatim>\<open>self.use_noise\<close>, of shape [1]). \<^verbatim>\<open>self.z_sigma\<close> is the variable
  \<^verbatim>\<open>gail_sigma_vail\<close> of shape [z\_size], assigned by \<open>create_network\<close>.
\<close>

record encoder_out =
  variables :: var_store
  estimate :: mat
  z_mean :: "mat option"
  concat_input :: mat
  self_z :: "mat option"

definition read_z_sigma :: "gail_model \<Rightarrow> var_store \<Rightarrow> error + vec" where
  "read_z_sigma m vs =
     (case vs ''gail_sigma_vail'' of
        None \<Rightarrow> Inl AttributeError
      | Some v \<Rightarrow>
          (case val v of
             Vector s \<Rightarrow> if length s = z_size m then Inr s else Inl InvalidArgument
           | _ \<Rightarrow> Inl InvalidArgument))"

definition sample_z :: "mat \<Rightarrow> vec \<Rightarrow> mat \<Rightarrow> real \<Rightarrow> error + mat" where
  \<comment> \<open>\<^verbatim>\<open>z_mean + self.z_sigma * self.noise * self.use_noise\<close>\<close>
  "sample_z zm z_sigma noise_t noise_level =
     bindE (bcast2 (*) [z_sigma] noise_t) (\<lambda>sn.
     bcast2 (+) zm (tmap (\<lambda>x. x * noise_level) sn))"

definition create_encoder ::
  "gail_model \<Rightarrow> externals \<Rightarrow> var_store \<Rightarrow> (nat \<Rightarrow> nat \<Rightarrow> real) \<Rightarrow> real \<Rightarrow> mat \<Rightarrow> mat \<Rightarrow> mat \<Rightarrow> bool
     \<Rightarrow> error + encoder_out" where
  "create_encoder m ext vs noise noise_level state_in action_in done_in reuse =
     bindE (if use_actions m then concat_axis1 [state_in, action_in, done_in]
            else Inr state_in) (\<lambda>ci.
     bindE (dense (kernel_init ext) vs ci (h_size m) (swish ext)
              ''GAIL_model/gail_d_hidden_1'' reuse) (\<lambda>(vs1, hidden_1).
     bindE (dense (kernel_init ext) vs1 hidden_1 (h_size m) (swish ext)
              ''GAIL_model/gail_d_hidden_2'' reuse) (\<lambda>(vs2, hidden_2).
     bindE (if use_vail m then
              bindE (dense (kernel_init ext) vs2 hidden_2 (z_size m) (\<lambda>x. x)
                       ''GAIL_model/gail_z_mean'' reuse) (\<lambda>(vs3, zm).
              bindE (read_z_sigma m vs3) (\<lambda>z_sigma.
              bindE (sample_z zm z_sigma (draw_like noise zm) noise_level) (\<lambda>zv.
                Inr (vs3, Some zm, Some zv, zv))))
            else Inr (vs2, None, None, hidden_2)) (\<lambda>(vs3, zm, zv, estimate_input).
     bindE (dense (kernel_init ext) vs3 estimate_input 1 sigmoid
              ''GAIL_model/gail_d_estimate'' reuse) (\<lambda>(vs4, est).
       Inr \<lparr>variables = vs4, estimate = est, z_mean = zm, concat_input = ci,
            self_z = zv\<rparr>)))))"

subsection \<open>create\_network (lines 206-234)\<close>

text \<open>
  The values fed to the placeholders of one run, and the random draws of one run: a
  normal draw for each encoder call and, for the gradient penalty, a uniform draw
  \<open>interp_alpha k\<close> for the k-th of its three input tensors.
\<close>

record feeds =
  encoded_expert :: mat
  expert_action_value :: mat
  done_expert :: mat
  encoded_policy :: mat
  selected_actions :: mat
  done_policy :: mat
  gail_NoiseLevel :: real

record draws =
  noise_expert :: "nat \<Rightarrow> nat \<Rightarrow> real"
  noise_policy :: "nat \<Rightarrow> nat \<Rightarrow> real"
  noise_interp :: "nat \<Rightarrow> nat \<Rightarrow> real"
  interp_alpha :: "nat \<Rightarrow> nat \<Rightarrow> nat \<Rightarrow> real"

record network =
  net_variables :: var_store
  z_log_sigma_sq :: "vec option"
  expert_estimate :: mat
  z_mean_expert :: "mat option"
  policy_estimate :: mat
  z_mean_policy :: "mat option"


subsection \<open>create\_gradient\_magnitude (lines 236-262)\<close>

text \<open>
  \<open>interpolate\<close> is the body of the loop of lines 248-250 for one pair of tensors.
  \<^verbatim>\<open>tf.gradients\<close> is TensorFlow's differentiation of one node by another; the model
  takes its result as the parameter \<open>gradients\<close>, a function of the two evaluated nodes.
\<close>

definition interpolate :: "(nat \<Rightarrow> nat \<Rightarrow> real) \<Rightarrow> mat \<Rightarrow> mat \<Rightarrow> error + mat" where
  "interpolate draw expert_in policy_in =
     (let alpha_t = draw_like draw expert_in in
      bindE (bcast2 (*) alpha_t expert_in) (\<lambda>a.
      bindE (bcast2 (*) (tmap (\<lambda>x. 1 - x) alpha_t) policy_in) (\<lambda>b.
        bcast2 (+) a b)))"

definition tf_sqrt :: "real \<Rightarrow> error + real" where
  "tf_sqrt x = (if 0 \<le> x then Inr (sqrt x) else Inl NonFinite)"

definition reduce_mean :: "real list \<Rightarrow> error + real" where
  \<comment> \<open>the mean of no element is 0 / 0\<close>
  "reduce_mean xs = (if xs = [] then Inl NonFinite else Inr (sum_list xs / real (length xs)))"

definition create_gradient_magnitude ::
  "gail_model \<Rightarrow> externals \<Rightarrow> var_store \<Rightarrow> (mat \<Rightarrow> mat \<Rightarrow> mat) \<Rightarrow> draws \<Rightarrow> feeds \<Rightarrow> error + real" where
  "create_gradient_magnitude m ext vs gradients dr fd =
     (let expert = [encoded_expert fd, expert_action_value fd, done_expert fd];
          policy = [encoded_policy fd, selected_actions fd, done_policy fd]
      in
      bindE (sequenceE (map (\<lambda>(k, expert_in, policy_in).
                               interpolate (interp_alpha dr k) expert_in policy_in)
                          (enumerate 0 (zip expert policy)))) (\<lambda>interp.
      bindE (create_encoder m ext vs (noise_interp dr) (gail_NoiseLevel fd)
               (interp ! 0) (interp ! 1) (interp ! 2) True) (\<lambda>r.
        (let grad = gradients (estimate r) (concat_input r) in
         bindE (sequenceE (map (\<lambda>g. tf_sqrt (sum_list (map (\<lambda>x. x ^ 2) g) + EPSILON)) grad))
           (\<lambda>safe_norm.
         reduce_mean (map (\<lambda>n. (n - 1) ^ 2) safe_norm))))))"

subsection \<open>create\_loss (lines 264-297)\<close>

definition tlog :: "mat \<Rightarrow> error + mat" where
  "tlog t = sequenceE (map (\<lambda>r. sequenceE (map tf_log r)) t)"

definition discriminator_loss :: "mat \<Rightarrow> mat \<Rightarrow> error + real" where
  "discriminator_loss expert_est policy_est =
     bindE (tlog (tmap (\<lambda>x. x + EPSILON) expert_est)) (\<lambda>le.
     bindE (tlog (tmap (\<lambda>x. 1 - x + EPSILON) policy_est)) (\<lambda>lp.
     bindE (bcast2 (+) le lp) (\<lambda>s.
     bindE (reduce_mean (concat s)) (\<lambda>mean.
       Inr (- mean)))))"

definition kl_loss :: "vec \<Rightarrow> mat \<Rightarrow> mat \<Rightarrow> error + real" where
  "kl_loss ls me mp =
     bindE (bcast2 (-) [map (\<lambda>x. 1 + x) ls] (tmap (\<lambda>x. 1 / 2 * (x * x)) me)) (\<lambda>t1.
     bindE (bcast2 (-) t1 (tmap (\<lambda>x. 1 / 2 * (x * x)) mp)) (\<lambda>t2.
     bindE (bcast2 (-) t2 [map exp ls]) (\<lambda>t3.
       reduce_mean (map (\<lambda>r. - sum_list r) t3))))"

definition create_loss ::
  "gail_model \<Rightarrow> externals \<Rightarrow> var_store \<Rightarrow> (mat \<Rightarrow> mat \<Rightarrow> mat) \<Rightarrow> draws \<Rightarrow> feeds \<Rightarrow> network
     \<Rightarrow> error + real" where
  "create_loss m ext vs gradients dr fd net =
     bindE (discriminator_loss (expert_estimate net) (policy_estimate net)) (\<lambda>dl.
     bindE (if use_vail m then
              (case z_log_sigma_sq net of
                 None \<Rightarrow> Inl AttributeError
               | Some ls \<Rightarrow>
                   (case (z_mean_expert net, z_mean_policy net) of
                      (Some me, Some mp) \<Rightarrow>
                        bindE (kl_loss ls me mp) (\<lambda>kl.
                        bindE (read_beta vs) (\<lambda>b.
                          Inr (b * (kl - mutual_information m) + dl)))
                    | _ \<Rightarrow> Inl ValueError))
            else Inr dl) (\<lambda>loss.
     if 0 < gradient_penalty_weight m then
       bindE (create_gradient_magnitude m ext vs gradients dr fd) (\<lambda>gm.
         Inr (loss + gradient_penalty_weight m * gm))
     else Inr loss))"

subsection \<open>The invariant of beta\<close>

definition beta_inv :: "var_store \<Rightarrow> bool" where
  "beta_inv vs = (\<exists>v b. vs ''gail_beta'' = Some v \<and> \<not> trainable v \<and> val v = Scalar b)"

subsection \<open>Auxiliary notions for the encoder\<close>

text \<open>
  Notions the proofs about the encoder use: a store that keeps every variable of
  another, the value and the shape condition of a dense layer on given kernel and bias,
  the bottleneck branch of \<open>create_encoder\<close> on its own, and the value of the sampled code.
\<close>

definition extends :: "var_store \<Rightarrow> var_store \<Rightarrow> bool" where
  "extends vs vs' = (\<forall>n v. vs n = Some v \<longrightarrow> vs' n = Some v)"

definition dense_value :: "mat \<Rightarrow> vec \<Rightarrow> (real \<Rightarrow> real) \<Rightarrow> mat \<Rightarrow> mat" where
  "dense_value kernel_t bias_t activation inputs =
     map (\<lambda>r. map activation
                 (map2 (+) (map (\<lambda>j. sum_list (map2 (\<lambda>a k. a * k ! j) r kernel_t))
                                [0..<length bias_t]) bias_t)) inputs"

definition dense_fits :: "mat \<Rightarrow> vec \<Rightarrow> mat \<Rightarrow> bool" where
  "dense_fits kernel_t bias_t inputs =
     (list_all (\<lambda>r. length r = length kernel_t) inputs \<and>
      list_all (\<lambda>k. length k = length bias_t) kernel_t)"

definition latent ::
  "gail_model \<Rightarrow> externals \<Rightarrow> var_store \<Rightarrow> (nat \<Rightarrow> nat \<Rightarrow> real) \<Rightarrow> real \<Rightarrow> mat \<Rightarrow> bool
     \<Rightarrow> error + (var_store \<times> mat option \<times> mat option \<times> mat)" where
  "latent m ext vs2 noise noise_level hidden_2 reuse =
     (if use_vail m then
        bindE (dense (kernel_init ext) vs2 hidden_2 (z_size m) (\<lambda>x. x)
                 ''GAIL_model/gail_z_mean'' reuse) (\<lambda>(vs3, zm).
        bindE (read_z_sigma m vs3) (\<lambda>z_sigma.
        bindE (sample_z zm z_sigma (draw_like noise zm) noise_level) (\<lambda>zv.
          Inr (vs3, Some zm, Some zv, zv))))
      else Inr (vs2, None, None, hidden_2))"

definition sample_value :: "mat \<Rightarrow> vec \<Rightarrow> (nat \<Rightarrow> nat \<Rightarrow> real) \<Rightarrow> real \<Rightarrow> mat" where
  "sample_value zm z_sigma d noise_level =
     map2 (map2 (+)) zm (tmap (\<lambda>x. x * noise_level) (map (\<lambda>r. map2 (*) z_sigma r) (draw_like d zm)))"

text \<open>
  A small session for the concrete evaluations: a model with the bottleneck enabled and
  one hidden unit, kernels that are zero but for the estimate layer's (all 1/128), the
  store after \<open>make_beta\<close>, the store after the creation of sigma as well, and the store
  after the first encoder call.
\<close>

definition demo_model :: gail_model where
  "demo_model = GAILModel_init 1 64 False True 10"

definition demo_ext :: externals where
  "demo_ext =
     \<lparr>swish = (\<lambda>x. x * sigmoid x),
      kernel_init = (\<lambda>name.
        if name = ''GAIL_model/gail_z_mean'' then Matrix [replicate 128 0]
        else if name = ''GAIL_model/gail_d_estimate'' then Matrix (replicate 128 [1 / 128])
        else Matrix [[0]])\<rparr>"


definition demo_store :: var_store where
  "demo_store =
     (\<lambda>_. None)(''gail_beta'' \<mapsto> \<lparr>trainable = False, val = Scalar 1\<rparr>,
               ''gail_sigma_vail'' \<mapsto> \<lparr>trainable = True, val = Vector (replicate 128 1)\<rparr>)"

definition demo_trained :: var_store where
  "demo_trained =
     demo_store
       (''GAIL_model/gail_d_hidden_1/kernel'' \<mapsto> \<lparr>trainable = True, val = Matrix [[0]]\<rparr>,
        ''GAIL_model/gail_d_hidden_1/bias'' \<mapsto> \<lparr>trainable = True, val = Vector [0]\<rparr>,
        ''GAIL_model/gail_d_hidden_2/kernel'' \<mapsto> \<lparr>trainable = True, val = Matrix [[0]]\<rparr>,
        ''GAIL_model/gail_d_hidden_2/bias'' \<mapsto> \<lparr>trainable = True, val = Vector [0]\<rparr>,
        ''GAIL_model/gail_z_mean/kernel'' \<mapsto> \<lparr>trainable = True, val = Matrix [replicate 128 0]\<rparr>,
        ''GAIL_model/gail_z_mean/bias'' \<mapsto> \<lparr>trainable = True, val = Vector (replicate 128 0)\<rparr>,
        ''GAIL_model/gail_d_estimate/kernel'' \<mapsto> \<lparr>trainable = True, val = Matrix (replicate 128 [1 / 128])\<rparr>,
        ''GAIL_model/gail_d_estimate/bias'' \<mapsto> \<lparr>trainable = True, val = Vector [0]\<rparr>)"

subsection \<open>Auxiliary notions for the losses\<close>

text \<open>
  Notions the proofs about the losses use: one entry of the KL sum, the spec's
  interpolation with one weight per sample, the value of the gradient penalty on a
  given gradient, and feeds, draws and network values of the small session (the
  network values being those \<open>create_network\<close> returns there).
\<close>

definition kl_entry :: "vec \<Rightarrow> mat \<Rightarrow> mat \<Rightarrow> nat \<Rightarrow> nat \<Rightarrow> real" where
  "kl_entry ls me mp i j =
     1 + ls ! j - 1 / 2 * (me ! i ! j)\<^sup>2 - 1 / 2 * (mp ! i ! j)\<^sup>2 - exp (ls ! j)"

definition per_sample_interpolation :: "(nat \<Rightarrow> real) \<Rightarrow> mat \<Rightarrow> mat \<Rightarrow> mat" where
  "per_sample_interpolation w expert_in policy_in =
     map (\<lambda>i. map2 (\<lambda>a b. w i * a + (1 - w i) * b) (expert_in ! i) (policy_in ! i))
       [0..<length expert_in]"

definition gradient_mag_value :: "mat \<Rightarrow> real" where
  "gradient_mag_value grad =
     (\<Sum>g\<leftarrow>grad. (sqrt ((\<Sum>x\<leftarrow>g. x\<^sup>2) + EPSILON) - 1)\<^sup>2) / real (length grad)"

definition demo_feeds :: feeds where
  "demo_feeds =
     \<lparr>encoded_expert = [[0]], expert_action_value = [[0]], done_expert = [[0]],
      encoded_policy = [[0]], selected_actions = [[0]], done_policy = [[0]],
      gail_NoiseLevel = 1\<rparr>"

definition demo_draws :: draws where
  "demo_draws =
     \<lparr>noise_expert = (\<lambda>i j. 0), noise_policy = (\<lambda>i j. 0), noise_interp = (\<lambda>i j. 0),
      interp_alpha = (\<lambda>k i j. 1 / 2)\<rparr>"

definition demo_net :: network where
  "demo_net =
     \<lparr>net_variables = demo_trained,
      z_log_sigma_sq = Some (replicate 128 (ln (1 + EPSILON))),
      expert_estimate = [[1 / 2]], z_mean_expert = Some [replicate 128 0],
      policy_estimate = [[1 / 2]], z_mean_policy = Some [replicate 128 0]\<rparr>"

section \<open>Theorems\<close>

lemma EPSILON_pos: "0 < EPSILON"
  by (simp add: EPSILON_def)

subsection \<open>The beta controller and the optimizer step\<close>

lemma read_beta_SomeD:
  "read_beta vs = Inr b \<Longrightarrow> \<exists>v. vs ''gail_beta'' = Some v \<and> val v = Scalar b"
  by (auto simp: read_beta_def split: option.splits tensor.splits)

lemma read_beta_update:
  assumes "read_beta vs = Inr b"
  shows "\<exists>vs'. update_beta m kl vs = Inr vs' \<and>
     read_beta vs' = Inr (max (b + alpha m * (kl - mutual_information m)) EPSILON)"
proof -
  from assms obtain v where v: "vs ''gail_beta'' = Some v" "val v = Scalar b"
    using read_beta_SomeD by blast
  then show ?thesis
    by (simp add: update_beta_def read_beta_def Let_def)
qed

text \<open>
  C1. Running the beta update with a measured KL scalar \<open>kl\<close> replaces the stored beta \<open>b\<close>
  by \<open>max (b + 0.0005 * (kl - 0.5)) 1e-7\<close>. The new beta is at least \<open>1e-7\<close> whatever \<open>b\<close>
  and \<open>kl\<close> are; from \<open>b = 1\<close> and \<open>kl = 1\<close> it is \<open>1.00025\<close>, and from the floor \<open>b = 1e-7\<close>
  with \<open>kl = -1e6\<close> it stays at the floor.
\<close>

theorem update_beta_floored_step:
  assumes "read_beta vs = Inr b"
  shows "\<exists>vs'. update_beta (GAILModel_init h e ua uv w) kl vs = Inr vs' \<and>
           read_beta vs' = Inr (max (b + 5 / 10000 * (kl - 1 / 2)) (1 / 10 ^ 7)) \<and>
           (\<exists>b'. read_beta vs' = Inr b' \<and> 1 / 10 ^ 7 \<le> b') \<and>
           (b = 1 \<and> kl = 1 \<longrightarrow> read_beta vs' = Inr (100025 / 100000)) \<and>
           (b = 1 / 10 ^ 7 \<and> kl = - (10 ^ 6) \<longrightarrow> read_beta vs' = Inr (1 / 10 ^ 7))"
proof -
  let ?m = "GAILModel_init h e ua uv w"
  from read_beta_update [OF assms, of ?m kl]
  obtain vs' where s: "update_beta ?m kl vs = Inr vs'"
    and r: "read_beta vs' = Inr (max (b + alpha ?m * (kl - mutual_information ?m)) EPSILON)"
    by blast
  have f: "alpha ?m = 5 / 10000" "mutual_information ?m = 1 / 2"
    by (simp_all add: GAILModel_init_def)
  from r have r': "read_beta vs' = Inr (max (b + 5 / 10000 * (kl - 1 / 2)) (1 / 10 ^ 7))"
    by (simp only: f EPSILON_def)
  have "1 / 10 ^ 7 \<le> max (b + 5 / 10000 * (kl - 1 / 2)) (1 / 10 ^ 7 :: real)"
    by (rule max.cobounded2)
  with s r' show ?thesis
    by (intro exI [of _ vs']) (auto simp: max_def)
qed

theorem update_beta_floored_step_witness:
  "\<exists>vs vs'. make_beta (\<lambda>_. None) = Inr vs \<and> read_beta vs = Inr 1 \<and>
     update_beta (GAILModel_init 128 64 False True 10) 1 vs = Inr vs' \<and>
     read_beta vs' = Inr (100025 / 100000)"
proof -
  let ?vs = "(\<lambda>_. None)(''gail_beta'' \<mapsto> \<lparr>trainable = False, val = Scalar 1\<rparr>)"
  have m: "make_beta (\<lambda>_. None) = Inr ?vs"
    by (simp add: make_beta_def get_variable_def)
  have r: "read_beta ?vs = Inr 1"
    by (simp add: read_beta_def)
  from update_beta_floored_step [OF r, of 128 64 False True 10 1] m r
  show ?thesis by blast
qed

lemma get_variable_keeps:
  "get_variable vs name tr initial reuse = Inr (vs', t) \<Longrightarrow> vs name' = Some v \<Longrightarrow> vs' name' = Some v"
  by (auto simp: get_variable_def split: option.splits if_splits)

lemma reachable_beta_inv: "reachable vs \<Longrightarrow> beta_inv vs"
proof (induction rule: reachable.induct)
  case (made vs0 vs)
  then show ?case
    by (auto simp: make_beta_def get_variable_def beta_inv_def split: option.splits if_splits)
next
  case (variable vs name tr initial reuse vs' t)
  then show ?case
    unfolding beta_inv_def by (blast dest: get_variable_keeps)
next
  case (beta_step vs m kl vs')
  then show ?case
    by (auto simp: update_beta_def beta_inv_def Let_def split: option.splits tensor.splits)
next
  case (optimizer_step vs adam)
  then show ?case
    by (auto simp: update_batch_def beta_inv_def)
qed

text \<open>
  C9. In every store a session reaches, beta has a value, the optimizer step leaves it
  as it is (whatever Adam writes into the trainable variables), and so does the
  creation or lookup of any variable: beta changes through \<open>update_beta\<close> only.
\<close>

theorem optimizer_step_keeps_beta:
  assumes "reachable vs"
  shows "(\<exists>b. read_beta vs = Inr b) \<and>
         read_beta (update_batch adam vs) = read_beta vs \<and>
         (\<forall>name tr initial reuse vs' t.
            get_variable vs name tr initial reuse = Inr (vs', t) \<longrightarrow> read_beta vs' = read_beta vs)"
proof -
  from reachable_beta_inv [OF assms] obtain v b
    where v: "vs ''gail_beta'' = Some v" "\<not> trainable v" "val v = Scalar b"
    unfolding beta_inv_def by blast
  have 1: "read_beta vs = Inr b"
    using v by (simp add: read_beta_def)
  have 2: "read_beta (update_batch adam vs) = read_beta vs"
    using v by (simp add: read_beta_def update_batch_def)
  have 3: "read_beta vs' = read_beta vs"
    if "get_variable vs name tr initial reuse = Inr (vs', t)" for name tr initial reuse vs' t
    using get_variable_keeps [OF that v(1)] v by (simp add: read_beta_def)
  from 1 2 3 show ?thesis by blast
qed

theorem optimizer_step_keeps_beta_witness:
  "reachable ((\<lambda>_. None)(''gail_beta'' \<mapsto> \<lparr>trainable = False, val = Scalar 1\<rparr>,
                          ''gail_sigma_vail'' \<mapsto> \<lparr>trainable = True, val = Vector [1, 1]\<rparr>)) \<and>
   read_beta (update_batch (\<lambda>_ _ _. Scalar 0)
      ((\<lambda>_. None)(''gail_beta'' \<mapsto> \<lparr>trainable = False, val = Scalar 1\<rparr>,
                          ''gail_sigma_vail'' \<mapsto> \<lparr>trainable = True, val = Vector [1, 1]\<rparr>))) = Inr 1 \<and>
   update_batch (\<lambda>_ _ _. Scalar 0)
      ((\<lambda>_. None)(''gail_beta'' \<mapsto> \<lparr>trainable = False, val = Scalar 1\<rparr>,
                          ''gail_sigma_vail'' \<mapsto> \<lparr>trainable = True, val = Vector [1, 1]\<rparr>)) ''gail_sigma_vail''
     = Some \<lparr>trainable = True, val = Scalar 0\<rparr>"
proof -
  let ?vs0 = "(\<lambda>_. None)(''gail_beta'' \<mapsto> \<lparr>trainable = False, val = Scalar 1\<rparr>)"
  let ?vs1 = "?vs0(''gail_sigma_vail'' \<mapsto> \<lparr>trainable = True, val = Vector [1, 1]\<rparr>)"
  have "make_beta (\<lambda>_. None) = Inr ?vs0"
    by (simp add: make_beta_def get_variable_def)
  then have r0: "reachable ?vs0"
    by (rule reachable.made)
  have "get_variable ?vs0 ''gail_sigma_vail'' True (Vector [1, 1]) False = Inr (?vs1, Vector [1, 1])"
    by (simp add: get_variable_def)
  with r0 have r1: "reachable ?vs1"
    by (rule reachable.variable)
  have b: "read_beta ?vs1 = Inr 1"
    by (simp add: read_beta_def)
  have s: "update_batch (\<lambda>_ _ _. Scalar 0) ?vs1 ''gail_sigma_vail'' = Some \<lparr>trainable = True, val = Scalar 0\<rparr>"
    by (simp add: update_batch_def)
  from optimizer_step_keeps_beta [OF r1, of "\<lambda>_ _ _. Scalar 0"] r1 b s
  show ?thesis by simp
qed

subsection \<open>The expert action\<close>

lemma zip_as_enumerate:
  "length r = length sizes \<Longrightarrow> zip r sizes = map (\<lambda>(i, n). (r ! i, n)) (enumerate 0 sizes)"
  by (auto simp: list_eq_iff_nth_eq nth_enumerate_eq)

lemma one_hot_nth:
  "k < length indices \<Longrightarrow> one_hot indices depth ! k = map (\<lambda>j. if int j = indices ! k then 1 else 0) [0..<depth]"
  by (simp add: one_hot_def)

lemma concat_axis1_eq:
  "ts \<noteq> [] \<Longrightarrow> list_all (\<lambda>u. length u = n) ts \<Longrightarrow>
     concat_axis1 ts = Inr (map (\<lambda>i. concat (map (\<lambda>u. u ! i) ts)) [0..<n])"
  by (cases ts) (auto simp: concat_axis1_def list_all_iff)

lemma concat_axis1_one_hot:
  assumes "sizes \<noteq> []" and "list_all (\<lambda>r. length r = length sizes) rows"
  shows "concat_axis1 (map (\<lambda>(i, n). one_hot (map (\<lambda>r. r ! i) rows) n) (enumerate 0 sizes))
           = Inr (map (one_hot_row sizes) rows)"
proof -
  let ?ts = "map (\<lambda>(i, n). one_hot (map (\<lambda>r. r ! i) rows) n) (enumerate 0 sizes)"
  from assms(1) obtain s ss where sizes: "sizes = s # ss" by (cases sizes) auto
  have len: "\<And>u. u \<in> set ?ts \<Longrightarrow> length u = length rows"
    by (auto simp: one_hot_def)
  have ne: "?ts \<noteq> []"
    by (simp add: sizes)
  have all: "list_all (\<lambda>u. length u = length rows) ?ts"
    using len unfolding list_all_iff by blast
  have c: "concat_axis1 ?ts = Inr (map (\<lambda>k. concat (map (\<lambda>u. u ! k) ?ts)) [0..<length rows])"
    using ne all by (rule concat_axis1_eq)
  have row: "concat (map (\<lambda>u. u ! k) ?ts) = one_hot_row sizes (rows ! k)" if k: "k < length rows" for k
  proof -
    have lr: "length (rows ! k) = length sizes"
      using assms(2) k by (simp add: list_all_length)
    have "map (\<lambda>u. u ! k) ?ts
        = map (\<lambda>(i, n). map (\<lambda>j. if int j = rows ! k ! i then 1 else 0) [0..<n]) (enumerate 0 sizes)"
      using k by (auto simp: one_hot_nth)
    also have "\<dots> = map (\<lambda>(i, n). map (\<lambda>j. if int j = i then 1 else 0) [0..<n]) (zip (rows ! k) sizes)"
      by (simp add: zip_as_enumerate [OF lr] case_prod_unfold comp_def)
    finally show ?thesis by (simp add: one_hot_row_def)
  qed
  have "map (\<lambda>k. concat (map (\<lambda>u. u ! k) ?ts)) [0..<length rows] = map (\<lambda>k. one_hot_row sizes (rows ! k)) [0..<length rows]"
    using row by simp
  also have "\<dots> = map (one_hot_row sizes) rows"
    by (rule nth_equalityI) simp_all
  finally show ?thesis using c by simp
qed

text \<open>
  C8. In a discrete action space the expert action is, row by row, the one-hot code of
  each raw index in its branch, joined in branch order; branch sizes [3, 2] and the raw
  action [1, 0] give [0, 1, 0, 1, 0]. In a continuous action space the expert action is
  the raw input.
\<close>

theorem expert_action_encoding:
  "(vector_action_space_type (brain pm) \<noteq> ''continuous'' \<and> act_size pm \<noteq> [] \<and>
      list_all (\<lambda>r. length r = length (act_size pm)) rows
      \<longrightarrow> expert_action pm (Int32 rows) = Inr (map (one_hot_row (act_size pm)) rows)) \<and>
   (vector_action_space_type (brain pm) = ''continuous'' \<and> act_size pm = n # ns \<and>
      list_all (\<lambda>r. length r = n) frows
      \<longrightarrow> expert_action pm (Float32 frows) = Inr frows) \<and>
   expert_action \<lparr>brain = \<lparr>vector_action_space_type = ''discrete''\<rparr>, act_size = [3, 2]\<rparr>
      (Int32 [[1, 0]]) = Inr [[0, 1, 0, 1, 0]]"
proof (intro conjI impI)
  assume "vector_action_space_type (brain pm) \<noteq> ''continuous'' \<and> act_size pm \<noteq> [] \<and>
      list_all (\<lambda>r. length r = length (act_size pm)) rows"
  then show "expert_action pm (Int32 rows) = Inr (map (one_hot_row (act_size pm)) rows)"
    by (simp add: expert_action_def concat_axis1_one_hot)
next
  assume "vector_action_space_type (brain pm) = ''continuous'' \<and> act_size pm = n # ns \<and>
      list_all (\<lambda>r. length r = n) frows"
  then show "expert_action pm (Float32 frows) = Inr frows"
    by (simp add: expert_action_def)
next
  show "expert_action \<lparr>brain = \<lparr>vector_action_space_type = ''discrete''\<rparr>, act_size = [3, 2]\<rparr>
      (Int32 [[1, 0]]) = Inr [[0, 1, 0, 1, 0]]"
    by (simp add: expert_action_def concat_axis1_def one_hot_def enumerate_eq_zip upt_rec)
qed

theorem expert_action_encoding_witness:
  "expert_action \<lparr>brain = \<lparr>vector_action_space_type = ''discrete''\<rparr>, act_size = [3, 2]\<rparr>
      (Int32 [[1, 0], [2, 1]]) = Inr [[0, 1, 0, 1, 0], [0, 0, 1, 0, 1]] \<and>
   expert_action \<lparr>brain = \<lparr>vector_action_space_type = ''continuous''\<rparr>, act_size = [2]\<rparr>
      (Float32 [[1 / 2, - 3]]) = Inr [[1 / 2, - 3]]"
  using expert_action_encoding
    [of "\<lparr>brain = \<lparr>vector_action_space_type = ''discrete''\<rparr>, act_size = [3, 2]\<rparr>" "[[1, 0], [2, 1]]"]
    expert_action_encoding
    [of "\<lparr>brain = \<lparr>vector_action_space_type = ''continuous''\<rparr>, act_size = [2]\<rparr>" _ 2 "[]" "[[1 / 2, - 3]]"]
  by (simp add: one_hot_row_def upt_rec)

subsection \<open>The intrinsic reward\<close>

lemma reward_of_score_eq:
  "p < 1 + EPSILON \<Longrightarrow> reward_of_score p = Inr (- ln (1 - p + EPSILON))"
  by (simp add: reward_of_score_def tf_log_def)

lemma reward_of_score_le_1:
  "p \<le> 1 \<Longrightarrow> reward_of_score p = Inr (- ln (1 - p + EPSILON))"
  using EPSILON_pos by (intro reward_of_score_eq) linarith

lemma intrinsic_reward_single: "intrinsic_reward [[p]] = [reward_of_score p]"
  by (simp add: intrinsic_reward_def)

lemma intrinsic_reward_nth:
  "i < length (concat est) \<Longrightarrow> intrinsic_reward est ! i = reward_of_score (concat est ! i)"
  by (simp add: intrinsic_reward_def)

text \<open>
  C4. The reward of a sample is \<open>- ln (1 - policy_estimate + 1e-7)\<close>. For two samples with
  estimates \<open>0 \<le> p < q < 1\<close> the reward of the first is strictly below the reward of the
  second, and for every estimate in [0, 1] (so in every [0, 1 - e] with \<open>e \<ge> 0\<close>) the
  reward is a finite number.
\<close>

theorem intrinsic_reward_increasing_finite:
  assumes "i < length (concat est)" and "j < length (concat est)"
    and "p = concat est ! i" and "q = concat est ! j"
  shows "length (intrinsic_reward est) = length (concat est) \<and>
         (0 \<le> p \<and> p \<le> 1 \<longrightarrow> intrinsic_reward est ! i = Inr (- ln (1 - p + 1 / 10 ^ 7))) \<and>
         (0 \<le> p \<and> p < q \<and> q < 1 \<longrightarrow>
            (\<exists>a b. intrinsic_reward est ! i = Inr a \<and> intrinsic_reward est ! j = Inr b \<and> a < b))"
proof (intro conjI impI)
  show "length (intrinsic_reward est) = length (concat est)"
    by (simp add: intrinsic_reward_def)
next
  assume "0 \<le> p \<and> p \<le> 1"
  then show "intrinsic_reward est ! i = Inr (- ln (1 - p + 1 / 10 ^ 7))"
    using assms(1,3) reward_of_score_le_1 [of p]
    by (simp add: intrinsic_reward_nth EPSILON_def)
next
  assume h: "0 \<le> p \<and> p < q \<and> q < 1"
  then have a: "intrinsic_reward est ! i = Inr (- ln (1 - p + EPSILON))"
    using assms(1,3) reward_of_score_le_1 [of p] by (simp add: intrinsic_reward_nth)
  from h have b: "intrinsic_reward est ! j = Inr (- ln (1 - q + EPSILON))"
    using assms(2,4) reward_of_score_le_1 [of q] by (simp add: intrinsic_reward_nth)
  have "0 < 1 - q + EPSILON" "1 - q + EPSILON < 1 - p + EPSILON"
    using h EPSILON_pos by linarith+
  then have "ln (1 - q + EPSILON) < ln (1 - p + EPSILON)"
    by (rule ln_strict_mono [rotated])
  with a b show "\<exists>a b. intrinsic_reward est ! i = Inr a \<and> intrinsic_reward est ! j = Inr b \<and> a < b"
    by simp
qed

theorem intrinsic_reward_increasing_finite_witness:
  "\<exists>a b. intrinsic_reward [[0], [1 / 2]] = [Inr a, Inr b] \<and> a = - ln (1 + 1 / 10 ^ 7) \<and> a < b"
proof -
  have l: "intrinsic_reward [[0], [1 / 2]] = [intrinsic_reward [[0], [1 / 2]] ! 0, intrinsic_reward [[0], [1 / 2]] ! 1]"
    by (simp add: intrinsic_reward_def)
  from intrinsic_reward_increasing_finite [of 0 "[[0], [1 / 2]]" 1 0 "1 / 2"]
  show ?thesis
    by (subst l) auto
qed

lemma reward_cont: "a < 1 + EPSILON \<Longrightarrow> isCont (\<lambda>p. - ln (1 - p + EPSILON)) a"
  by (intro continuous_intros) simp_all

lemma reward_near:
  assumes a: "a \<le> 1" and e: "0 < e"
  shows "\<exists>d>0. \<forall>p. p \<le> 1 \<and> \<bar>p - a\<bar> < d \<longrightarrow>
           (\<exists>r. intrinsic_reward [[p]] = [Inr r] \<and> \<bar>r - (- ln (1 - a + EPSILON))\<bar> < e)"
proof -
  have "a < 1 + EPSILON"
    using a EPSILON_pos by linarith
  then have "(\<lambda>p. - ln (1 - p + EPSILON)) \<midarrow>a\<rightarrow> - ln (1 - a + EPSILON)"
    using reward_cont [of a] by (simp add: isCont_def)
  from LIM_D [OF this e] obtain s where s: "0 < s"
    and c: "\<And>x. x \<noteq> a \<Longrightarrow> \<bar>x - a\<bar> < s \<Longrightarrow>
              \<bar>- ln (1 - x + EPSILON) - (- ln (1 - a + EPSILON))\<bar> < e"
    by (auto simp: real_norm_def)
  have "\<exists>r. intrinsic_reward [[p]] = [Inr r] \<and> \<bar>r - (- ln (1 - a + EPSILON))\<bar> < e"
    if "p \<le> 1" "\<bar>p - a\<bar> < s" for p
  proof (cases "p = a")
    case True
    with that e show ?thesis
      by (simp add: intrinsic_reward_single reward_of_score_le_1)
  next
    case False
    with that c [of p] show ?thesis
      by (simp add: intrinsic_reward_single reward_of_score_le_1)
  qed
  with s show ?thesis by blast
qed

lemma reward_bounded:
  assumes "p \<le> 1"
  shows "\<exists>r. intrinsic_reward [[p]] = [Inr r] \<and> r \<le> - ln EPSILON"
proof -
  have "EPSILON \<le> 1 - p + EPSILON"
    using assms by simp
  then have "ln EPSILON \<le> ln (1 - p + EPSILON)"
    using EPSILON_pos by (rule ln_mono)
  then show ?thesis
    using assms by (simp add: intrinsic_reward_single reward_of_score_le_1)
qed

lemma ln_one_plus_EPSILON: "0 < ln (1 + EPSILON)" "ln (1 + EPSILON) \<le> EPSILON"
  using EPSILON_pos ln_add_one_self_le_self [of EPSILON] by simp_all

text \<open>
  C6, as amended. On estimates up to 1 the reward never exceeds \<open>- ln 1e-7\<close> and
  approaches this bound as the estimate approaches 1; as the estimate approaches 0 the
  reward approaches \<open>- ln (1 + 1e-7)\<close>, a negative number within \<open>1e-7\<close> of 0.
\<close>

theorem intrinsic_reward_bounded:
  "(\<forall>p. p \<le> 1 \<longrightarrow> (\<exists>r. intrinsic_reward [[p]] = [Inr r] \<and> r \<le> - ln (1 / 10 ^ 7))) \<and>
   (\<forall>e>0. \<exists>d>0. \<forall>p. 1 - d < p \<and> p < 1 \<longrightarrow>
      (\<exists>r. intrinsic_reward [[p]] = [Inr r] \<and> \<bar>r - (- ln (1 / 10 ^ 7))\<bar> < e)) \<and>
   (\<forall>e>0. \<exists>d>0. \<forall>p. 0 < p \<and> p < d \<longrightarrow>
      (\<exists>r. intrinsic_reward [[p]] = [Inr r] \<and> \<bar>r - (- ln (1 + 1 / 10 ^ 7))\<bar> < e)) \<and>
   - (1 / 10 ^ 7) \<le> - ln (1 + 1 / 10 ^ 7 :: real) \<and> - ln (1 + 1 / 10 ^ 7 :: real) < 0"
proof (intro conjI allI impI)
  fix p :: real assume "p \<le> 1"
  from reward_bounded [OF this]
  show "\<exists>r. intrinsic_reward [[p]] = [Inr r] \<and> r \<le> - ln (1 / 10 ^ 7)"
    by (simp add: EPSILON_def)
next
  fix e :: real assume e: "0 < e"
  from reward_near [of 1 e] e obtain d where d: "0 < d"
    and n: "\<And>p. p \<le> 1 \<Longrightarrow> \<bar>p - 1\<bar> < d \<Longrightarrow>
          \<exists>r. intrinsic_reward [[p]] = [Inr r] \<and> \<bar>r - (- ln (1 - 1 + EPSILON))\<bar> < e"
    by auto
  have "\<exists>r. intrinsic_reward [[p]] = [Inr r] \<and> \<bar>r - (- ln (1 / 10 ^ 7))\<bar> < e"
    if "1 - d < p \<and> p < 1" for p
    using n [of p] that by (simp add: EPSILON_def abs_if split: if_splits)
  with d show "\<exists>d>0. \<forall>p. 1 - d < p \<and> p < 1 \<longrightarrow>
      (\<exists>r. intrinsic_reward [[p]] = [Inr r] \<and> \<bar>r - (- ln (1 / 10 ^ 7))\<bar> < e)"
    by blast
next
  fix e :: real assume e: "0 < e"
  from reward_near [of 0 e] e obtain d where d: "0 < d"
    and n: "\<And>p. p \<le> 1 \<Longrightarrow> \<bar>p - 0\<bar> < d \<Longrightarrow>
          \<exists>r. intrinsic_reward [[p]] = [Inr r] \<and> \<bar>r - (- ln (1 - 0 + EPSILON))\<bar> < e"
    by auto
  have "\<exists>r. intrinsic_reward [[p]] = [Inr r] \<and> \<bar>r - (- ln (1 + 1 / 10 ^ 7))\<bar> < e"
    if "0 < p \<and> p < min d 1" for p
    using n [of p] that by (simp add: EPSILON_def)
  moreover have "0 < min d 1"
    using d by simp
  ultimately show "\<exists>d>0. \<forall>p. 0 < p \<and> p < d \<longrightarrow>
      (\<exists>r. intrinsic_reward [[p]] = [Inr r] \<and> \<bar>r - (- ln (1 + 1 / 10 ^ 7))\<bar> < e)"
    by blast
next
  show "- (1 / 10 ^ 7) \<le> - ln (1 + 1 / 10 ^ 7 :: real)"
    using ln_one_plus_EPSILON(2) by (simp add: EPSILON_def)
next
  show "- ln (1 + 1 / 10 ^ 7 :: real) < 0"
    using ln_one_plus_EPSILON(1) by (simp add: EPSILON_def)
qed

theorem intrinsic_reward_bounded_witness:
  "(\<exists>r. intrinsic_reward [[1 / 2]] = [Inr r] \<and> r \<le> - ln (1 / 10 ^ 7)) \<and>
   (\<exists>d>0. \<exists>r. intrinsic_reward [[d / 2]] = [Inr r] \<and> \<bar>r - (- ln (1 + 1 / 10 ^ 7))\<bar> < 1)"
proof -
  from intrinsic_reward_bounded
  have a: "\<forall>p. p \<le> 1 \<longrightarrow> (\<exists>r. intrinsic_reward [[p]] = [Inr r] \<and> r \<le> - ln (1 / 10 ^ 7))"
    and b: "\<forall>e>0. \<exists>d>0. \<forall>p. 0 < p \<and> p < d \<longrightarrow>
      (\<exists>r. intrinsic_reward [[p]] = [Inr r] \<and> \<bar>r - (- ln (1 + 1 / 10 ^ 7))\<bar> < e)"
    by blast+
  from a have 1: "\<exists>r. intrinsic_reward [[1 / 2]] = [Inr r] \<and> r \<le> - ln (1 / 10 ^ 7)"
    by simp
  from b obtain d where d: "0 < (d::real)"
    and n: "\<And>p. 0 < p \<and> p < d \<Longrightarrow>
      (\<exists>r. intrinsic_reward [[p]] = [Inr r] \<and> \<bar>r - (- ln (1 + 1 / 10 ^ 7))\<bar> < 1)"
    by (metis zero_less_one)
  from n [of "d / 2"] d have "\<exists>r. intrinsic_reward [[d / 2]] = [Inr r] \<and> \<bar>r - (- ln (1 + 1 / 10 ^ 7))\<bar> < 1"
    by simp
  with d 1 show ?thesis by blast
qed

text \<open>
  C6 as stated fails in both parts: the reward of estimates in [0, 1) is bounded above,
  and it does not approach 0 as the estimate approaches 0.
\<close>

theorem intrinsic_reward_unbounded_counterexample:
  "\<not> (\<forall>M. \<exists>p. 0 \<le> p \<and> p < 1 \<and> (\<exists>r. intrinsic_reward [[p]] = [Inr r] \<and> M < r)) \<and>
   \<not> (\<forall>e>0. \<exists>d>0. \<forall>p. 0 < p \<and> p < d \<longrightarrow>
         (\<exists>r. intrinsic_reward [[p]] = [Inr r] \<and> \<bar>r - 0\<bar> < e))"
proof
  show "\<not> (\<forall>M. \<exists>p. 0 \<le> p \<and> p < 1 \<and> (\<exists>r. intrinsic_reward [[p]] = [Inr r] \<and> M < r))"
  proof
    assume "\<forall>M. \<exists>p. 0 \<le> p \<and> p < 1 \<and> (\<exists>r. intrinsic_reward [[p]] = [Inr r] \<and> M < r)"
    then obtain p r where p: "p < 1" and r: "intrinsic_reward [[p]] = [Inr r]" "- ln EPSILON < r"
      by blast
    from p reward_bounded [of p] r show False
      by auto
  qed
next
  show "\<not> (\<forall>e>0. \<exists>d>0. \<forall>p. 0 < p \<and> p < d \<longrightarrow>
         (\<exists>r. intrinsic_reward [[p]] = [Inr r] \<and> \<bar>r - 0\<bar> < e))"
  proof
    assume h: "\<forall>e>0. \<exists>d>0. \<forall>p. 0 < p \<and> p < d \<longrightarrow>
         (\<exists>r. intrinsic_reward [[p]] = [Inr r] \<and> \<bar>r - 0\<bar> < e)"
    define e where "e = ln (1 + EPSILON / 2)"
    have e: "0 < e"
      unfolding e_def using EPSILON_pos by (intro ln_gt_zero) simp
    with h obtain d where d: "0 < d"
      and n: "\<And>p. 0 < p \<Longrightarrow> p < d \<Longrightarrow> \<exists>r. intrinsic_reward [[p]] = [Inr r] \<and> \<bar>r - 0\<bar> < e"
      by blast
    define p where "p = min (d / 2) (EPSILON / 4)"
    have p: "0 < p" "p < d" "p < EPSILON / 2" "p \<le> 1"
      using d EPSILON_pos by (auto simp: p_def min_def EPSILON_def)
    from n [OF p(1,2)] p(4) have "\<bar>- ln (1 - p + EPSILON)\<bar> < e"
      by (simp add: intrinsic_reward_single reward_of_score_le_1)
    moreover have "ln (1 + EPSILON / 2) < ln (1 - p + EPSILON)"
      using p(3) EPSILON_pos by (intro ln_strict_mono) linarith+
    ultimately show False
      by (simp add: e_def)
  qed
qed

subsection \<open>The encoder\<close>

lemma bindE_Inr [simp]: "bindE (Inr x) f = f x"
  by (simp add: bindE_def)

lemma bindE_Inl [simp]: "bindE (Inl e) f = Inl e"
  by (simp add: bindE_def)

lemma bindE_eq_Inr: "bindE r f = Inr y \<longleftrightarrow> (\<exists>x. r = Inr x \<and> f x = Inr y)"
  by (cases r) simp_all

lemma sequenceE_Nil [simp]: "sequenceE [] = Inr []"
  by (simp add: sequenceE_def)

lemma sequenceE_Cons [simp]:
  "sequenceE (r # rs) = bindE r (\<lambda>x. bindE (sequenceE rs) (\<lambda>xs. Inr (x # xs)))"
  by (simp add: sequenceE_def)

lemma sequenceE_map_Inr: "sequenceE (map (\<lambda>x. Inr (g x)) xs) = Inr (map g xs)"
  by (induction xs) simp_all

lemma sequenceE_all_Inr:
  "(\<And>x. x \<in> set xs \<Longrightarrow> f x = Inr (g x)) \<Longrightarrow> sequenceE (map f xs) = Inr (map g xs)"
  by (induction xs) simp_all

lemma bcast_same: "length xs = length ys \<Longrightarrow> bcast f xs ys = Inr (map2 f xs ys)"
  by (simp add: bcast_def)

lemma bcast_single: "bcast f [x] ys = Inr (map (f x) ys)"
  by (cases ys rule: list.exhaust; cases "tl ys") (auto simp: bcast_def)

lemma bcast2_row:
  assumes "\<And>r. r \<in> set t \<Longrightarrow> length r = length v"
  shows "bcast2 f [v] t = Inr (map (\<lambda>r. map2 f v r) t)"
proof -
  have "sequenceE (map (bcast f v) t) = Inr (map (\<lambda>r. map2 f v r) t)"
    using assms by (intro sequenceE_all_Inr) (simp add: bcast_same)
  then show ?thesis
    by (simp add: bcast2_def bcast_single)
qed

lemma bcast2_same:
  assumes "length a = length b" and "\<And>i. i < length a \<Longrightarrow> length (a ! i) = length (b ! i)"
  shows "bcast2 f a b = Inr (map2 (map2 f) a b)"
proof -
  have "\<And>p. p \<in> set (zip a b) \<Longrightarrow> (\<lambda>(r, s). bcast f r s) p = Inr ((\<lambda>(r, s). map2 f r s) p)"
    using assms(2) by (auto simp: set_zip bcast_same)
  then have "sequenceE (map (\<lambda>(r, s). bcast f r s) (zip a b)) = Inr (map (\<lambda>(r, s). map2 f r s) (zip a b))"
    by (rule sequenceE_all_Inr)
  then show ?thesis
    using assms(1) by (simp add: bcast2_def bcast_same)
qed

lemma length_draw_like [simp]: "length (draw_like d t) = length t"
  by (simp add: draw_like_def)

lemma nth_draw_like:
  "i < length t \<Longrightarrow> draw_like d t ! i = map (d i) [0..<length (t ! i)]"
  by (simp add: draw_like_def)

lemma map2_add_zero: "length r = length s \<Longrightarrow> map2 (+) r (map (\<lambda>x. 0::real) s) = r"
  by (induction r s rule: list_induct2) simp_all

lemma sample_z_zero:
  assumes "\<And>r. r \<in> set zm \<Longrightarrow> length r = length z_sigma"
  shows "sample_z zm z_sigma (draw_like d zm) 0 = Inr zm"
proof -
  let ?N = "draw_like d zm"
  have rows: "\<And>r. r \<in> set ?N \<Longrightarrow> length r = length z_sigma"
    using assms by (auto simp: draw_like_def)
  let ?sn = "map (\<lambda>r. map2 (*) z_sigma r) ?N"
  have 1: "bcast2 (*) [z_sigma] ?N = Inr ?sn"
    using rows by (rule bcast2_row)
  let ?t = "tmap (\<lambda>x. x * 0) ?sn"
  have len: "length zm = length ?t"
    by (simp add: tmap_def)
  have li: "length (zm ! i) = length (?t ! i)" if "i < length zm" for i
    using that assms [of "zm ! i"] by (simp add: tmap_def nth_draw_like)
  have 2: "bcast2 (+) zm ?t = Inr (map2 (map2 (+)) zm ?t)"
    using len li by (rule bcast2_same)
  have "map2 (map2 (+)) zm ?t = zm"
  proof (rule nth_equalityI)
    show "length (map2 (map2 (+)) zm ?t) = length zm"
      by (simp add: tmap_def)
  next
    fix i assume "i < length (map2 (map2 (+)) zm ?t)"
    then have i: "i < length zm" by (simp add: tmap_def)
    then have "length (zm ! i) = length z_sigma"
      using assms by simp
    with i show "map2 (map2 (+)) zm ?t ! i = zm ! i"
      by (simp add: tmap_def nth_draw_like map2_add_zero comp_def)
  qed
  with 1 2 show ?thesis
    by (simp add: sample_z_def)
qed

lemma extends_refl: "extends vs vs"
  by (simp add: extends_def)

lemma extends_trans: "extends a b \<Longrightarrow> extends b c \<Longrightarrow> extends a c"
  by (simp add: extends_def)

lemma get_variable_extends:
  "get_variable vs name tr initial reuse = Inr (vs', t) \<Longrightarrow> extends vs vs'"
  unfolding extends_def by (blast dest: get_variable_keeps)

lemma get_variable_reuse_same:
  "get_variable vs name tr initial True = Inr (vs', t) \<Longrightarrow> vs' = vs"
  by (auto simp: get_variable_def split: option.splits)

lemma get_variable_holds:
  "get_variable vs name tr initial reuse = Inr (vs', t) \<Longrightarrow> \<exists>v. vs' name = Some v \<and> val v = t"
  by (auto simp: get_variable_def split: option.splits if_splits)

lemma get_variable_found:
  "vs name = Some v \<Longrightarrow> get_variable vs name tr initial True = Inr (vs, val v)"
  by (simp add: get_variable_def)

lemma dense_found:
  assumes "vs (name @ ''/kernel'') = Some kv" and "val kv = Matrix K"
    and "vs (name @ ''/bias'') = Some bv" and "val bv = Vector b"
    and "length b = units" and "dense_fits K b x"
  shows "dense init vs x units act name True = Inr (vs, dense_value K b act x)"
  using assms
  by (simp add: dense_def get_variable_found matmul_def dense_fits_def dense_value_def comp_def)

lemma dense_Inr:
  assumes "dense init vs x units act name reuse = Inr (vs', y)"
  shows "\<exists>kv K bv b. vs' (name @ ''/kernel'') = Some kv \<and> val kv = Matrix K \<and>
           vs' (name @ ''/bias'') = Some bv \<and> val bv = Vector b \<and> length b = units \<and>
           dense_fits K b x \<and> y = dense_value K b act x \<and> extends vs vs' \<and>
           (reuse \<longrightarrow> vs' = vs)"
proof -
  obtain vs1 k where g1: "get_variable vs (name @ ''/kernel'') True (init name) reuse = Inr (vs1, k)"
    using assms by (cases "get_variable vs (name @ ''/kernel'') True (init name) reuse")
      (auto simp: dense_def)
  obtain vs2 b0
    where g2': "get_variable vs1 (name @ ''/bias'') True (Vector (replicate units 0)) reuse = Inr (vs2, b0)"
    using assms g1
    by (cases "get_variable vs1 (name @ ''/bias'') True (Vector (replicate units 0)) reuse")
      (auto simp: dense_def)
  from assms g1 g2'
  have r: "(case (k, b0) of
                (Matrix kernel_t, Vector bias_t) \<Rightarrow>
                   if length bias_t = units then
                     bindE (matmul x kernel_t units) (\<lambda>y. Inr (vs2, map (\<lambda>r. map act (map2 (+) r bias_t)) y))
                   else Inl InvalidArgument
               | _ \<Rightarrow> Inl InvalidArgument) = Inr (vs', y)"
    by (simp add: dense_def)
  from r obtain K b where kb: "k = Matrix K" "b0 = Vector b" "length b = units"
    and mm: "bindE (matmul x K units) (\<lambda>y. Inr (vs2, map (\<lambda>r. map act (map2 (+) r b)) y)) = Inr (vs', y)"
    by (cases k; cases b0) (auto split: if_splits)
  from mm have vs2: "vs2 = vs'"
    by (auto simp: bindE_eq_Inr)
  note g2 = g2' [unfolded vs2]
  from mm kb have fits: "dense_fits K b x" and y: "y = dense_value K b act x"
    by (auto simp: bindE_eq_Inr matmul_def dense_fits_def dense_value_def comp_def split: if_splits)
  from get_variable_holds [OF g1] obtain kv where kv: "vs1 (name @ ''/kernel'') = Some kv" "val kv = k"
    by blast
  from get_variable_keeps [OF g2 kv(1)] have kv': "vs' (name @ ''/kernel'') = Some kv" .
  from get_variable_holds [OF g2] obtain bv where bv: "vs' (name @ ''/bias'') = Some bv" "val bv = b0"
    by blast
  have ext: "extends vs vs'"
    using get_variable_extends [OF g1] get_variable_extends [OF g2] by (rule extends_trans)
  have same: "vs' = vs" if reuse
    using that g1 g2 by (auto dest: get_variable_reuse_same)
  from kv' kv(2) bv kb fits y ext same show ?thesis
    by blast
qed



lemma dense_rows:
  assumes "dense init vs x units act name reuse = Inr (vs', y)"
  shows "length y = length x" and "\<And>r. r \<in> set y \<Longrightarrow> length r = units"
proof -
  from dense_Inr [OF assms] obtain K b where "length b = units" "y = dense_value K b act x"
    by blast
  then show "length y = length x" and "\<And>r. r \<in> set y \<Longrightarrow> length r = units"
    by (auto simp: dense_value_def)
qed

lemma read_z_sigma_Inr:
  "read_z_sigma m vs = Inr s \<Longrightarrow>
     length s = z_size m \<and> (\<exists>v. vs ''gail_sigma_vail'' = Some v \<and> val v = Vector s)"
  by (auto simp: read_z_sigma_def split: option.splits tensor.splits if_splits)


lemma create_encoder_latent:
  "create_encoder m ext vs noise noise_level state_in action_in done_in reuse =
     bindE (if use_actions m then concat_axis1 [state_in, action_in, done_in]
            else Inr state_in) (\<lambda>ci.
     bindE (dense (kernel_init ext) vs ci (h_size m) (swish ext)
              ''GAIL_model/gail_d_hidden_1'' reuse) (\<lambda>(vs1, hidden_1).
     bindE (dense (kernel_init ext) vs1 hidden_1 (h_size m) (swish ext)
              ''GAIL_model/gail_d_hidden_2'' reuse) (\<lambda>(vs2, hidden_2).
     bindE (latent m ext vs2 noise noise_level hidden_2 reuse) (\<lambda>(vs3, zm, zv, estimate_input).
     bindE (dense (kernel_init ext) vs3 estimate_input 1 sigmoid
              ''GAIL_model/gail_d_estimate'' reuse) (\<lambda>(vs4, est).
       Inr \<lparr>variables = vs4, estimate = est, z_mean = zm, concat_input = ci,
            self_z = zv\<rparr>)))))"
  by (simp add: create_encoder_def latent_def)

lemma sample_z_eq:
  assumes "\<And>r. r \<in> set zm \<Longrightarrow> length r = length z_sigma"
  shows "sample_z zm z_sigma (draw_like d zm) noise_level = Inr (sample_value zm z_sigma d noise_level)"
proof -
  let ?N = "draw_like d zm"
  have rows: "\<And>r. r \<in> set ?N \<Longrightarrow> length r = length z_sigma"
    using assms by (auto simp: draw_like_def)
  let ?sn = "map (\<lambda>r. map2 (*) z_sigma r) ?N"
  have 1: "bcast2 (*) [z_sigma] ?N = Inr ?sn"
    using rows by (rule bcast2_row)
  let ?t = "tmap (\<lambda>x. x * noise_level) ?sn"
  have len: "length zm = length ?t"
    by (simp add: tmap_def)
  have li: "length (zm ! i) = length (?t ! i)" if "i < length zm" for i
    using that assms [of "zm ! i"] by (simp add: tmap_def nth_draw_like)
  have 2: "bcast2 (+) zm ?t = Inr (map2 (map2 (+)) zm ?t)"
    using len li by (rule bcast2_same)
  with 1 show ?thesis
    by (simp add: sample_z_def sample_value_def)
qed

lemma sample_value_shape:
  assumes "\<And>r. r \<in> set zm \<Longrightarrow> length r = length z_sigma"
  shows "length (sample_value zm z_sigma d u) = length zm"
    and "i < length zm \<Longrightarrow> length (sample_value zm z_sigma d u ! i) = length (zm ! i)"
  using assms [of "zm ! i"] by (simp_all add: sample_value_def tmap_def nth_draw_like)

lemma sample_value_zero:
  assumes "\<And>r. r \<in> set zm \<Longrightarrow> length r = length z_sigma"
  shows "sample_value zm z_sigma d 0 = zm"
proof (rule nth_equalityI)
  show "length (sample_value zm z_sigma d 0) = length zm"
    using assms by (rule sample_value_shape)
next
  fix i assume "i < length (sample_value zm z_sigma d 0)"
  then have i: "i < length zm"
    by (simp add: sample_value_def tmap_def)
  then have "length (zm ! i) = length z_sigma"
    using assms by simp
  with i show "sample_value zm z_sigma d 0 ! i = zm ! i"
    by (simp add: sample_value_def tmap_def nth_draw_like map2_add_zero comp_def)
qed

lemma latent_Inr:
  assumes "latent m ext vs2 n u h2 reuse = Inr (vs3, zm, zv, ei)"
  shows "extends vs2 vs3" and "reuse \<Longrightarrow> vs3 = vs2"
    and "\<not> use_vail m \<Longrightarrow> zm = None \<and> zv = None \<and> ei = h2"
    and "use_vail m \<Longrightarrow> \<exists>zmv sg.
           dense (kernel_init ext) vs2 h2 (z_size m) (\<lambda>x. x) ''GAIL_model/gail_z_mean'' reuse = Inr (vs3, zmv) \<and>
           read_z_sigma m vs3 = Inr sg \<and> zm = Some zmv \<and> zv = Some ei \<and>
           ei = sample_value zmv sg n u"
proof -
  show v: "use_vail m \<Longrightarrow> \<exists>zmv sg.
           dense (kernel_init ext) vs2 h2 (z_size m) (\<lambda>x. x) ''GAIL_model/gail_z_mean'' reuse = Inr (vs3, zmv) \<and>
           read_z_sigma m vs3 = Inr sg \<and> zm = Some zmv \<and> zv = Some ei \<and>
           ei = sample_value zmv sg n u"
  proof -
    assume uv: "use_vail m"
    with assms obtain zmv sg zv0
      where d: "dense (kernel_init ext) vs2 h2 (z_size m) (\<lambda>x. x) ''GAIL_model/gail_z_mean'' reuse = Inr (vs3, zmv)"
        and s: "read_z_sigma m vs3 = Inr sg"
        and z: "sample_z zmv sg (draw_like n zmv) u = Inr zv0"
        and r: "zm = Some zmv" "zv = Some zv0" "ei = zv0"
      by (auto simp: latent_def bindE_eq_Inr)
    from read_z_sigma_Inr [OF s] dense_rows(2) [OF d]
    have "\<And>r. r \<in> set zmv \<Longrightarrow> length r = length sg"
      by simp
    from sample_z_eq [OF this, where d = n and noise_level = u] z have "zv0 = sample_value zmv sg n u"
      by simp
    with d s r show ?thesis
      by blast
  qed
  show "extends vs2 vs3"
  proof (cases "use_vail m")
    case True
    with v show ?thesis by (blast dest: dense_Inr)
  next
    case False
    with assms show ?thesis by (simp add: latent_def extends_refl)
  qed
  show "reuse \<Longrightarrow> vs3 = vs2"
  proof (cases "use_vail m")
    case True
    assume reuse
    with v True show ?thesis by (blast dest: dense_Inr)
  next
    case False
    with assms show ?thesis by (simp add: latent_def)
  qed
  show "\<not> use_vail m \<Longrightarrow> zm = None \<and> zv = None \<and> ei = h2"
    using assms by (simp add: latent_def)
qed

lemma latent_found:
  assumes "dense (kernel_init ext) vs h2 (z_size m) (\<lambda>x. x) ''GAIL_model/gail_z_mean'' True = Inr (vs, zmv)"
    and "read_z_sigma m vs = Inr sg" and "use_vail m"
  shows "latent m ext vs n u h2 True
           = Inr (vs, Some zmv, Some (sample_value zmv sg n u), sample_value zmv sg n u)"
proof -
  from read_z_sigma_Inr [OF assms(2)] dense_rows(2) [OF assms(1)]
  have "\<And>r. r \<in> set zmv \<Longrightarrow> length r = length sg"
    by simp
  from sample_z_eq [OF this, where d = n and noise_level = u] assms show ?thesis
    by (simp add: latent_def)
qed


lemma latent_zero:
  "latent m ext vs2 n 0 h2 reuse = latent m ext vs2 n' 0 h2 reuse"
proof (cases "use_vail m")
  case False
  then show ?thesis by (simp add: latent_def)
next
  case True
  show ?thesis
  proof (cases "dense (kernel_init ext) vs2 h2 (z_size m) (\<lambda>x. x) ''GAIL_model/gail_z_mean'' reuse")
    case (Inl e)
    with True show ?thesis by (simp add: latent_def)
  next
    case (Inr p)
    obtain vs3 zmv where p: "p = (vs3, zmv)" by (cases p)
    show ?thesis
    proof (cases "read_z_sigma m vs3")
      case (Inl e)
      with True Inr p show ?thesis by (simp add: latent_def)
    next
      case s: (Inr sg)
      have rows: "\<And>r. r \<in> set zmv \<Longrightarrow> length r = length sg"
        using read_z_sigma_Inr [OF s] dense_rows(2) [OF Inr [unfolded p]] by simp
      from sample_z_eq [OF rows, where d = n and noise_level = 0] sample_z_eq [OF rows, where d = n' and noise_level = 0] sample_value_zero [OF rows]
      have "sample_z zmv sg (draw_like n zmv) 0 = sample_z zmv sg (draw_like n' zmv) 0"
        by simp
      with True Inr p s show ?thesis
        by (simp add: latent_def)
    qed
  qed
qed

lemma latent_zero_z:
  assumes "latent m ext vs2 n 0 h2 reuse = Inr (vs3, zm, zv, ei)"
  shows "zv = zm" and "use_vail m \<Longrightarrow> zm = Some ei"
proof -
  show "zv = zm"
  proof (cases "use_vail m")
    case False
    with latent_Inr(3) [OF assms] show ?thesis by simp
  next
    case True
    from latent_Inr(4) [OF assms True] obtain zmv sg
      where d: "dense (kernel_init ext) vs2 h2 (z_size m) (\<lambda>x. x) ''GAIL_model/gail_z_mean'' reuse = Inr (vs3, zmv)"
        and s: "read_z_sigma m vs3 = Inr sg"
        and r: "zm = Some zmv" "zv = Some ei" "ei = sample_value zmv sg n 0"
      by blast
    have rows: "\<And>r. r \<in> set zmv \<Longrightarrow> length r = length sg"
      using read_z_sigma_Inr [OF s] dense_rows(2) [OF d] by simp
    from sample_value_zero [OF rows] r show ?thesis by simp
  qed
  then show "use_vail m \<Longrightarrow> zm = Some ei"
    using latent_Inr(4) [OF assms] by auto
qed

lemma create_encoder_Inr:
  assumes "create_encoder m ext vs n u s a d reuse = Inr r"
  obtains ci vs1 h1 vs2 h2 vs3 ei where
    "(if use_actions m then concat_axis1 [s, a, d] else Inr s) = Inr ci"
    "dense (kernel_init ext) vs ci (h_size m) (swish ext) ''GAIL_model/gail_d_hidden_1'' reuse = Inr (vs1, h1)"
    "dense (kernel_init ext) vs1 h1 (h_size m) (swish ext) ''GAIL_model/gail_d_hidden_2'' reuse = Inr (vs2, h2)"
    "latent m ext vs2 n u h2 reuse = Inr (vs3, z_mean r, self_z r, ei)"
    "dense (kernel_init ext) vs3 ei 1 sigmoid ''GAIL_model/gail_d_estimate'' reuse = Inr (variables r, estimate r)"
    "concat_input r = ci"
proof -
  from assms obtain ci p1 p2 p3 p4
    where c: "(if use_actions m then concat_axis1 [s, a, d] else Inr s) = Inr ci"
      and 1: "dense (kernel_init ext) vs ci (h_size m) (swish ext) ''GAIL_model/gail_d_hidden_1'' reuse = Inr p1"
      and 2: "dense (kernel_init ext) (fst p1) (snd p1) (h_size m) (swish ext) ''GAIL_model/gail_d_hidden_2'' reuse = Inr p2"
      and 3: "latent m ext (fst p2) n u (snd p2) reuse = Inr p3"
      and 4: "dense (kernel_init ext) (fst p3) (snd (snd (snd p3))) 1 sigmoid ''GAIL_model/gail_d_estimate'' reuse = Inr p4"
      and r: "r = \<lparr>variables = fst p4, estimate = snd p4, z_mean = fst (snd p3), concat_input = ci,
            self_z = fst (snd (snd p3))\<rparr>"
    unfolding create_encoder_latent bindE_eq_Inr case_prod_unfold by blast
  show ?thesis
    by (rule that [of ci "fst p1" "snd p1" "fst p2" "snd p2" "fst p3" "snd (snd (snd p3))"])
      (simp_all add: c 1 2 3 4 r del: One_nat_def)
qed


text \<open>
  C10. With the noise level at 0 the encoder returns the same result, estimate included,
  whatever the noise drawn: two evaluations on the same inputs and variables agree.
  With the bottleneck enabled the sampled code \<^verbatim>\<open>self.z\<close> then equals the latent mean.
\<close>

theorem noise_level_zero_is_deterministic:
  "create_encoder m ext vs n1 0 s a d reuse = create_encoder m ext vs n2 0 s a d reuse \<and>
   (\<forall>r. use_vail m \<and> create_encoder m ext vs n1 0 s a d reuse = Inr r \<longrightarrow>
      self_z r = z_mean r \<and> z_mean r \<noteq> None)"
proof (intro conjI allI impI)
  show "create_encoder m ext vs n1 0 s a d reuse = create_encoder m ext vs n2 0 s a d reuse"
    unfolding create_encoder_latent latent_zero [of m ext _ n1 _ reuse n2] ..
next
  fix r assume h: "use_vail m \<and> create_encoder m ext vs n1 0 s a d reuse = Inr r"
  then obtain vs2 h2 vs3 ei where "latent m ext vs2 n1 0 h2 reuse = Inr (vs3, z_mean r, self_z r, ei)"
    by (blast elim: create_encoder_Inr)
  from latent_zero_z [OF this] h show "self_z r = z_mean r" "z_mean r \<noteq> None"
    by simp_all
qed


lemma dense_value_hidden: "dense_value [[0]] [0] (\<lambda>x. x * sigmoid x) [[0]] = [[0]]"
  by (simp add: dense_value_def)

lemma dense_value_z_mean: "dense_value [replicate n 0] (replicate n 0) (\<lambda>x. x) [[0]] = [replicate n 0]"
  by (simp add: dense_value_def map_replicate_const)

lemma dense_value_estimate:
  "dense_value (replicate n [k]) [0] sigmoid [replicate n c] = [[sigmoid (real n * (c * k))]]"
  by (simp add: dense_value_def sum_list_replicate)

lemma sample_value_demo:
  "sample_value [replicate n 0] (replicate n 1) (\<lambda>i j. c) u = [replicate n (c * u)]"
  by (simp add: sample_value_def tmap_def draw_like_def map_replicate_const)


lemma demo_second_call:
  "create_encoder demo_model demo_ext demo_trained (\<lambda>i j. c) u [[0]] [[0]] [[0]] True
     = Inr \<lparr>variables = demo_trained, estimate = [[sigmoid (c * u)]],
            z_mean = Some [replicate 128 0], concat_input = [[0]],
            self_z = Some [replicate 128 (c * u)]\<rparr>"
proof -
  have m: "\<not> use_actions demo_model" "use_vail demo_model"
    "h_size demo_model = 1" "z_size demo_model = 128"
    by (simp_all add: demo_model_def GAILModel_init_def)
  have e: "swish demo_ext = (\<lambda>x. x * sigmoid x)"
    by (simp add: demo_ext_def)
  have d1: "dense init demo_trained [[0]] 1 (\<lambda>x. x * sigmoid x) ''GAIL_model/gail_d_hidden_1'' True
              = Inr (demo_trained, [[0]])" for init
    using dense_found [of demo_trained "''GAIL_model/gail_d_hidden_1''" _ "[[0]]" _ "[0]" 1 "[[0]]" init "\<lambda>x. x * sigmoid x"]
    by (simp add: demo_store_def demo_trained_def dense_fits_def dense_value_hidden)
  have d2: "dense init demo_trained [[0]] 1 (\<lambda>x. x * sigmoid x) ''GAIL_model/gail_d_hidden_2'' True
              = Inr (demo_trained, [[0]])" for init
    using dense_found [of demo_trained "''GAIL_model/gail_d_hidden_2''" _ "[[0]]" _ "[0]" 1 "[[0]]" init "\<lambda>x. x * sigmoid x"]
    by (simp add: demo_store_def demo_trained_def dense_fits_def dense_value_hidden)
  have d3: "dense init demo_trained [[0]] 128 (\<lambda>x. x) ''GAIL_model/gail_z_mean'' True
              = Inr (demo_trained, [replicate 128 0])" for init
    using dense_found [of demo_trained "''GAIL_model/gail_z_mean''" _ "[replicate 128 0]" _ "replicate 128 0" 128 "[[0]]" init "\<lambda>x. x"]
    by (simp add: demo_store_def demo_trained_def dense_fits_def dense_value_z_mean)
  have s: "read_z_sigma demo_model demo_trained = Inr (replicate 128 1)"
    by (simp add: read_z_sigma_def demo_store_def demo_trained_def m)
  have l: "latent demo_model demo_ext demo_trained (\<lambda>i j. c) u [[0]] True
             = Inr (demo_trained, Some [replicate 128 0], Some [replicate 128 (c * u)], [replicate 128 (c * u)])"
  proof -
    have "dense (kernel_init demo_ext) demo_trained [[0]] (z_size demo_model) (\<lambda>x. x)
            ''GAIL_model/gail_z_mean'' True = Inr (demo_trained, [replicate 128 0])"
      using d3 by (simp add: m)
    from latent_found [OF this s m(2), of "\<lambda>i j. c" u] show ?thesis
      by (simp add: sample_value_demo)
  qed
  have d4: "dense init demo_trained [replicate 128 (c * u)] 1 sigmoid ''GAIL_model/gail_d_estimate'' True
              = Inr (demo_trained, [[sigmoid (c * u)]])" for init
    using dense_found [of demo_trained "''GAIL_model/gail_d_estimate''" _ "replicate 128 [1 / 128]" _ "[0]" 1 "[replicate 128 (c * u)]" init sigmoid]
      dense_value_estimate [of 128 "1 / 128" "c * u"]
    by (simp add: demo_store_def demo_trained_def dense_fits_def list_all_iff)
  show ?thesis
    by (simp add: create_encoder_latent m e d1 d2 l d4 del: One_nat_def)
qed



theorem noise_level_zero_is_deterministic_witness:
  "create_encoder demo_model demo_ext demo_trained (\<lambda>i j. 1) 0 [[0]] [[0]] [[0]] True
     = create_encoder demo_model demo_ext demo_trained (\<lambda>i j. 5) 0 [[0]] [[0]] [[0]] True \<and>
   (\<exists>r. create_encoder demo_model demo_ext demo_trained (\<lambda>i j. 1) 0 [[0]] [[0]] [[0]] True = Inr r \<and>
        use_vail demo_model \<and> self_z r = z_mean r \<and> z_mean r = Some [replicate 128 0])"
proof -
  have v: "use_vail demo_model"
    by (simp add: demo_model_def GAILModel_init_def)
  let ?r = "\<lparr>variables = demo_trained, estimate = [[sigmoid (1 * 0)]],
            z_mean = Some [replicate 128 0], concat_input = [[0]],
            self_z = Some [replicate 128 (1 * 0)]\<rparr>"
  have c: "create_encoder demo_model demo_ext demo_trained (\<lambda>i j. 1) 0 [[0]] [[0]] [[0]] True = Inr ?r"
    by (rule demo_second_call)
  from noise_level_zero_is_deterministic
    [of demo_model demo_ext demo_trained "\<lambda>i j. 1" "[[0]]" "[[0]]" "[[0]]" True "\<lambda>i j. 5"]
  have e: "create_encoder demo_model demo_ext demo_trained (\<lambda>i j. 1) 0 [[0]] [[0]] [[0]] True
     = create_encoder demo_model demo_ext demo_trained (\<lambda>i j. 5) 0 [[0]] [[0]] [[0]] True"
    and z: "self_z ?r = z_mean ?r"
    using c v by blast+
  have "z_mean ?r = Some [replicate 128 0]"
    by simp
  with e c v z show ?thesis
    by blast
qed


subsection \<open>The losses and the gradient penalty\<close>

lemma bcast_single_right: "bcast f xs [y] = Inr (map (\<lambda>x. f x y) xs)"
  by (cases xs rule: list.exhaust; cases "tl xs") (auto simp: bcast_def)

lemma bcast2_row_right:
  assumes "\<And>r. r \<in> set t \<Longrightarrow> length r = length w"
  shows "bcast2 f t [w] = Inr (map (\<lambda>r. map2 f r w) t)"
proof -
  have "sequenceE (map (\<lambda>r. bcast f r w) t) = Inr (map (\<lambda>r. map2 f r w) t)"
    using assms by (intro sequenceE_all_Inr) (simp add: bcast_same)
  then show ?thesis
    by (simp add: bcast2_def bcast_single_right)
qed

lemma reduce_mean_Cons: "xs \<noteq> [] \<Longrightarrow> reduce_mean xs = Inr (sum_list xs / real (length xs))"
  by (simp add: reduce_mean_def)

lemma sum_list_upt: "sum_list (map f [0..<n]) = (\<Sum>i = 0..<n. f i)"
  by (simp add: interv_sum_list_conv_sum_set_nat)

lemma kl_loss_entries:
  assumes len: "length me = length mp"
    and me: "\<And>r. r \<in> set me \<Longrightarrow> length r = length ls"
    and mp: "\<And>r. r \<in> set mp \<Longrightarrow> length r = length ls"
  shows "kl_loss ls me mp
           = reduce_mean (map (\<lambda>i. - sum_list (map (kl_entry ls me mp i) [0..<length ls])) [0..<length me])"
proof -
  let ?h = "\<lambda>x::real. 1 / 2 * (x * x)"
  let ?t1 = "map (\<lambda>r. map2 (-) (map (\<lambda>x. 1 + x) ls) r) (tmap ?h me)"
  let ?t2 = "map2 (map2 (-)) ?t1 (tmap ?h mp)"
  let ?t3 = "map (\<lambda>r. map2 (-) r (map exp ls)) ?t2"
  have 1: "bcast2 (-) [map (\<lambda>x. 1 + x) ls] (tmap ?h me) = Inr ?t1"
    using me by (intro bcast2_row) (auto simp: tmap_def)
  have 2: "bcast2 (-) ?t1 (tmap ?h mp) = Inr ?t2"
    using len me mp by (intro bcast2_same) (simp_all add: tmap_def)
  have 3: "bcast2 (-) ?t2 [map exp ls] = Inr ?t3"
    using len me mp by (intro bcast2_row_right) (auto simp: tmap_def set_zip)
  have rows: "?t3 = map (\<lambda>i. map (kl_entry ls me mp i) [0..<length ls]) [0..<length me]"
  proof (rule nth_equalityI)
    show "length ?t3 = length (map (\<lambda>i. map (kl_entry ls me mp i) [0..<length ls]) [0..<length me])"
      using len by (simp add: tmap_def)
  next
    fix i assume "i < length ?t3"
    then have i: "i < length me" "i < length mp"
      using len by (simp_all add: tmap_def)
    then have li: "length (me ! i) = length ls" "length (mp ! i) = length ls"
      using me mp by simp_all
    have "?t3 ! i = map (kl_entry ls me mp i) [0..<length ls]"
      using i li by (intro nth_equalityI) (simp_all add: tmap_def kl_entry_def power2_eq_square)
    with i show "?t3 ! i = map (\<lambda>i. map (kl_entry ls me mp i) [0..<length ls]) [0..<length me] ! i"
      by simp
  qed
  have "kl_loss ls me mp = reduce_mean (map (\<lambda>r. - sum_list r) ?t3)"
    unfolding kl_loss_def by (simp only: 1 2 3 bindE_Inr)
  also have "map (\<lambda>r. - sum_list r) ?t3
      = map (\<lambda>i. - sum_list (map (kl_entry ls me mp i) [0..<length ls])) [0..<length me]"
    by (subst rows) (simp add: comp_def)
  finally show ?thesis .
qed

text \<open>
  C7. For a non-empty batch the KL loss is the mean over the samples of the negated sum
  over the latent dimensions of
  \<open>1 + z_log_sigma_sq - 0.5 * z_mean_expert^2 - 0.5 * z_mean_policy^2 - exp z_log_sigma_sq\<close>,
  the log-variance being shared by all samples; when the log-variance and both latent
  means are zero it is 0, hence not negative.
\<close>

theorem kl_loss_formula:
  assumes "length me = length mp" and "me \<noteq> []"
    and "\<forall>r\<in>set me. length r = length ls" and "\<forall>r\<in>set mp. length r = length ls"
  shows "kl_loss ls me mp =
           Inr ((\<Sum>i = 0..<length me.
                   - (\<Sum>j = 0..<length ls.
                        1 + ls ! j - 1 / 2 * (me ! i ! j)\<^sup>2 - 1 / 2 * (mp ! i ! j)\<^sup>2 - exp (ls ! j)))
                / real (length me)) \<and>
         ((\<forall>x\<in>set ls. x = 0) \<and> (\<forall>r\<in>set me. \<forall>x\<in>set r. x = 0) \<and> (\<forall>r\<in>set mp. \<forall>x\<in>set r. x = 0)
            \<longrightarrow> kl_loss ls me mp = Inr 0 \<and> (\<exists>kl. kl_loss ls me mp = Inr kl \<and> 0 \<le> kl))"
proof -
  have k: "kl_loss ls me mp
           = reduce_mean (map (\<lambda>i. - sum_list (map (kl_entry ls me mp i) [0..<length ls])) [0..<length me])"
    using assms by (intro kl_loss_entries) simp_all
  have f: "kl_loss ls me mp =
           Inr ((\<Sum>i = 0..<length me. - (\<Sum>j = 0..<length ls. kl_entry ls me mp i j)) / real (length me))"
    using assms(2) by (simp add: k reduce_mean_Cons sum_list_upt)
  have z: "kl_loss ls me mp = Inr 0"
    if h: "(\<forall>x\<in>set ls. x = 0) \<and> (\<forall>r\<in>set me. \<forall>x\<in>set r. x = 0) \<and> (\<forall>r\<in>set mp. \<forall>x\<in>set r. x = 0)"
  proof -
    have "kl_entry ls me mp i j = 0" if "i < length me" "j < length ls" for i j
    proof -
      from that assms have "j < length (me ! i)" "j < length (mp ! i)" "i < length mp"
        by simp_all
      with that h have "ls ! j = 0" "me ! i ! j = 0" "mp ! i ! j = 0"
        by (metis nth_mem)+
      then show ?thesis
        by (simp add: kl_entry_def)
    qed
    then show ?thesis
      by (simp add: f)
  qed
  from z have "(\<forall>x\<in>set ls. x = 0) \<and> (\<forall>r\<in>set me. \<forall>x\<in>set r. x = 0) \<and> (\<forall>r\<in>set mp. \<forall>x\<in>set r. x = 0)
            \<longrightarrow> kl_loss ls me mp = Inr 0 \<and> (\<exists>kl. kl_loss ls me mp = Inr kl \<and> 0 \<le> kl)"
    by simp
  with f show ?thesis
    unfolding kl_entry_def by (rule conjI)
qed

theorem kl_loss_formula_witness:
  "kl_loss [0, 0] [[0, 0]] [[0, 0]] = Inr 0 \<and>
   kl_loss [0] [[1], [2]] [[3], [1]] = Inr ((- (1 - 1 / 2 - 9 / 2 - 1) + - (1 - 2 - 1 / 2 - 1)) / 2)"
  using kl_loss_formula [of "[[0, 0]]" "[[0, 0]]" "[0, 0]"]
    kl_loss_formula [of "[[1], [2]]" "[[3], [1]]" "[0]"]
  by (simp add: upt_rec)

lemma sequenceE_Inr:
  "sequenceE rs = Inr xs \<Longrightarrow> rs = map Inr xs"
proof (induction rs arbitrary: xs)
  case Nil
  then show ?case by simp
next
  case (Cons r rs)
  then show ?case
    by (auto simp: bindE_eq_Inr)
qed

lemma tlog_column:
  assumes "\<And>x. x \<in> set xs \<Longrightarrow> 0 < f x"
  shows "tlog (tmap f (map (\<lambda>x. [x]) xs)) = Inr (map (\<lambda>x. [ln (f x)]) xs)"
proof -
  have "sequenceE (map (\<lambda>x. sequenceE (map tf_log [f x])) xs) = Inr (map (\<lambda>x. [ln (f x)]) xs)"
    using assms by (intro sequenceE_all_Inr) (simp add: tf_log_def)
  then show ?thesis
    by (simp add: tlog_def tmap_def comp_def)
qed

lemma discriminator_loss_columns:
  assumes "length es = length ps" and "es \<noteq> []"
    and "\<And>x. x \<in> set es \<Longrightarrow> 0 < x + EPSILON" and "\<And>x. x \<in> set ps \<Longrightarrow> 0 < 1 - x + EPSILON"
  shows "discriminator_loss (map (\<lambda>x. [x]) es) (map (\<lambda>x. [x]) ps)
           = Inr (- ((\<Sum>(x, y)\<leftarrow>zip es ps. ln (x + EPSILON) + ln (1 - y + EPSILON)) / real (length es)))"
proof -
  let ?le = "map (\<lambda>x. [ln (x + EPSILON)]) es" and ?lp = "map (\<lambda>x. [ln (1 - x + EPSILON)]) ps"
  have 1: "tlog (tmap (\<lambda>x. x + EPSILON) (map (\<lambda>x. [x]) es)) = Inr ?le"
    using assms(3) by (rule tlog_column)
  have 2: "tlog (tmap (\<lambda>x. 1 - x + EPSILON) (map (\<lambda>x. [x]) ps)) = Inr ?lp"
    using assms(4) by (rule tlog_column)
  have 3: "bcast2 (+) ?le ?lp = Inr (map2 (map2 (+)) ?le ?lp)"
    using assms(1) by (intro bcast2_same) simp_all
  have c: "concat (map2 (map2 (+)) ?le ?lp)
             = map (\<lambda>(x, y). ln (x + EPSILON) + ln (1 - y + EPSILON)) (zip es ps)"
    using assms(1) by (induction es ps rule: list_induct2) simp_all
  have ne: "map (\<lambda>(x, y). ln (x + EPSILON) + ln (1 - y + EPSILON)) (zip es ps) \<noteq> []"
    using assms(1,2) by (cases es; cases ps) simp_all
  have "discriminator_loss (map (\<lambda>x. [x]) es) (map (\<lambda>x. [x]) ps)
          = bindE (reduce_mean (concat (map2 (map2 (+)) ?le ?lp))) (\<lambda>mean. Inr (- mean))"
    unfolding discriminator_loss_def by (simp only: 1 2 3 bindE_Inr)
  also have "\<dots> = Inr (- (sum_list (map (\<lambda>(x, y). ln (x + EPSILON) + ln (1 - y + EPSILON)) (zip es ps))
                         / real (length es)))"
    unfolding c using ne assms(1) by (simp add: reduce_mean_Cons)
  finally show ?thesis .
qed

lemma create_loss_Inr:
  assumes "create_loss m ext vs gradients dr fd net = Inr tot"
  shows "\<exists>base vail pen.
           discriminator_loss (expert_estimate net) (policy_estimate net) = Inr base \<and>
           tot = base + vail + pen \<and>
           (if use_vail m then
              \<exists>ls me mp kl b. z_log_sigma_sq net = Some ls \<and> z_mean_expert net = Some me \<and>
                 z_mean_policy net = Some mp \<and> kl_loss ls me mp = Inr kl \<and> read_beta vs = Inr b \<and>
                 vail = b * (kl - mutual_information m)
            else vail = 0) \<and>
           (if 0 < gradient_penalty_weight m then
              \<exists>gm. create_gradient_magnitude m ext vs gradients dr fd = Inr gm \<and>
                 pen = gradient_penalty_weight m * gm
            else pen = 0)"
proof -
  from assms obtain base loss
    where b: "discriminator_loss (expert_estimate net) (policy_estimate net) = Inr base"
      and l: "(if use_vail m then
              (case z_log_sigma_sq net of
                 None \<Rightarrow> Inl AttributeError
               | Some ls \<Rightarrow>
                   (case (z_mean_expert net, z_mean_policy net) of
                      (Some me, Some mp) \<Rightarrow>
                        bindE (kl_loss ls me mp) (\<lambda>kl.
                        bindE (read_beta vs) (\<lambda>b.
                          Inr (b * (kl - mutual_information m) + base)))
                    | _ \<Rightarrow> Inl ValueError))
            else Inr base) = Inr loss"
      and p: "(if 0 < gradient_penalty_weight m then
                 bindE (create_gradient_magnitude m ext vs gradients dr fd) (\<lambda>gm.
                   Inr (loss + gradient_penalty_weight m * gm))
               else Inr loss) = Inr tot"
    unfolding create_loss_def bindE_eq_Inr by blast
  have v: "\<exists>vail. loss = base + vail \<and>
           (if use_vail m then
              \<exists>ls me mp kl b. z_log_sigma_sq net = Some ls \<and> z_mean_expert net = Some me \<and>
                 z_mean_policy net = Some mp \<and> kl_loss ls me mp = Inr kl \<and> read_beta vs = Inr b \<and>
                 vail = b * (kl - mutual_information m)
            else vail = 0)"
  proof (cases "use_vail m")
    case False
    with l show ?thesis by simp
  next
    case True
    with l obtain ls me mp kl b0
      where "z_log_sigma_sq net = Some ls" "z_mean_expert net = Some me" "z_mean_policy net = Some mp"
        "kl_loss ls me mp = Inr kl" "read_beta vs = Inr b0"
        "loss = b0 * (kl - mutual_information m) + base"
      by (auto simp: bindE_eq_Inr split: option.splits)
    with True show ?thesis
      by simp
  qed
  have g: "\<exists>pen. tot = loss + pen \<and>
           (if 0 < gradient_penalty_weight m then
              \<exists>gm. create_gradient_magnitude m ext vs gradients dr fd = Inr gm \<and>
                 pen = gradient_penalty_weight m * gm
            else pen = 0)"
    using p by (auto simp: bindE_eq_Inr split: if_splits)
  from b v g show ?thesis
    by (metis (no_types, lifting) add.assoc)
qed

lemma create_loss_plain:
  "\<not> use_vail m \<Longrightarrow> \<not> 0 < gradient_penalty_weight m \<Longrightarrow>
     create_loss m ext vs gradients dr fd net
       = discriminator_loss (expert_estimate net) (policy_estimate net)"
  by (cases "discriminator_loss (expert_estimate net) (policy_estimate net)")
    (simp_all add: create_loss_def)

lemma interpolate_entries:
  assumes "length e = length p" and "\<And>i. i < length e \<Longrightarrow> length (e ! i) = length (p ! i)"
  shows "interpolate d e p
           = Inr (map (\<lambda>i. map (\<lambda>j. d i j * e ! i ! j + (1 - d i j) * p ! i ! j) [0..<length (e ! i)])
                    [0..<length e])"
proof -
  let ?A = "draw_like d e"
  let ?a = "map2 (map2 (*)) ?A e" and ?b = "map2 (map2 (*)) (tmap (\<lambda>x. 1 - x) ?A) p"
  have 1: "bcast2 (*) ?A e = Inr ?a"
    by (intro bcast2_same) (simp_all add: nth_draw_like)
  have 2: "bcast2 (*) (tmap (\<lambda>x. 1 - x) ?A) p = Inr ?b"
    using assms by (intro bcast2_same) (simp_all add: tmap_def nth_draw_like)
  have 3: "bcast2 (+) ?a ?b = Inr (map2 (map2 (+)) ?a ?b)"
    using assms by (intro bcast2_same) (simp_all add: tmap_def nth_draw_like)
  have "map2 (map2 (+)) ?a ?b
          = map (\<lambda>i. map (\<lambda>j. d i j * e ! i ! j + (1 - d i j) * p ! i ! j) [0..<length (e ! i)])
              [0..<length e]"
  proof (rule nth_equalityI)
    show "length (map2 (map2 (+)) ?a ?b)
            = length (map (\<lambda>i. map (\<lambda>j. d i j * e ! i ! j + (1 - d i j) * p ! i ! j) [0..<length (e ! i)])
                        [0..<length e])"
      using assms(1) by (simp add: tmap_def)
  next
    fix i assume "i < length (map2 (map2 (+)) ?a ?b)"
    then have i: "i < length e" "i < length p"
      using assms(1) by (simp_all add: tmap_def)
    have "map2 (map2 (+)) ?a ?b ! i
            = map (\<lambda>j. d i j * e ! i ! j + (1 - d i j) * p ! i ! j) [0..<length (e ! i)]"
      using i assms(2) [OF i(1)]
      by (intro nth_equalityI) (simp_all add: tmap_def nth_draw_like)
    with i show "map2 (map2 (+)) ?a ?b ! i
            = map (\<lambda>i. map (\<lambda>j. d i j * e ! i ! j + (1 - d i j) * p ! i ! j) [0..<length (e ! i)])
                [0..<length e] ! i"
      by simp
  qed
  with 1 2 3 show ?thesis
    unfolding interpolate_def Let_def by (simp only: bindE_Inr)
qed

lemma safe_norm_all:
  "sequenceE (map (\<lambda>g. tf_sqrt (sum_list (map (\<lambda>x. x ^ 2) g) + EPSILON)) grad)
     = Inr (map (\<lambda>g. sqrt (sum_list (map (\<lambda>x. x ^ 2) g) + EPSILON)) grad)"
proof (rule sequenceE_all_Inr)
  fix g :: "real list"
  have "0 \<le> sum_list (map (\<lambda>x. x ^ 2) g)"
    by (rule sum_list_nonneg) auto
  then show "tf_sqrt (sum_list (map (\<lambda>x. x ^ 2) g) + EPSILON)
               = Inr (sqrt (sum_list (map (\<lambda>x. x ^ 2) g) + EPSILON))"
    using EPSILON_pos by (simp add: tf_sqrt_def)
qed

lemma create_encoder_reuse_store:
  assumes "create_encoder m ext vs n u s a d True = Inr r"
  shows "variables r = vs"
proof -
  from assms obtain ci vs1 h1 vs2 h2 vs3 ei where
    1: "dense (kernel_init ext) vs ci (h_size m) (swish ext) ''GAIL_model/gail_d_hidden_1'' True = Inr (vs1, h1)"
    and 2: "dense (kernel_init ext) vs1 h1 (h_size m) (swish ext) ''GAIL_model/gail_d_hidden_2'' True = Inr (vs2, h2)"
    and 3: "latent m ext vs2 n u h2 True = Inr (vs3, z_mean r, self_z r, ei)"
    and 4: "dense (kernel_init ext) vs3 ei 1 sigmoid ''GAIL_model/gail_d_estimate'' True = Inr (variables r, estimate r)"
    by (rule create_encoder_Inr)
  from dense_Inr [OF 1] have "vs1 = vs" by blast
  moreover from dense_Inr [OF 2] have "vs2 = vs1" by blast
  moreover from latent_Inr(2) [OF 3] have "vs3 = vs2" by blast
  moreover from dense_Inr [OF 4] have "variables r = vs3" by blast
  ultimately show ?thesis by simp
qed

lemma create_gradient_magnitude_eq:
  "create_gradient_magnitude m ext vs gradients dr fd =
     bindE (interpolate (interp_alpha dr 0) (encoded_expert fd) (encoded_policy fd)) (\<lambda>i0.
     bindE (interpolate (interp_alpha dr 1) (expert_action_value fd) (selected_actions fd)) (\<lambda>i1.
     bindE (interpolate (interp_alpha dr 2) (done_expert fd) (done_policy fd)) (\<lambda>i2.
     bindE (create_encoder m ext vs (noise_interp dr) (gail_NoiseLevel fd) i0 i1 i2 True) (\<lambda>r.
       reduce_mean (map (\<lambda>n. (n - 1) ^ 2)
         (map (\<lambda>g. sqrt (sum_list (map (\<lambda>x. x ^ 2) g) + EPSILON))
            (gradients (estimate r) (concat_input r))))))))"
  unfolding create_gradient_magnitude_def Let_def safe_norm_all bindE_Inr
  by (cases "interpolate (interp_alpha dr 0) (encoded_expert fd) (encoded_policy fd)";
      cases "interpolate (interp_alpha dr 1) (expert_action_value fd) (selected_actions fd)";
      cases "interpolate (interp_alpha dr 2) (done_expert fd) (done_policy fd)")
    (simp_all add: numeral_2_eq_2)

lemma create_gradient_magnitude_Inr:
  assumes "create_gradient_magnitude m ext vs gradients dr fd = Inr gm"
  shows "\<exists>i0 i1 i2 r.
           interpolate (interp_alpha dr 0) (encoded_expert fd) (encoded_policy fd) = Inr i0 \<and>
           interpolate (interp_alpha dr 1) (expert_action_value fd) (selected_actions fd) = Inr i1 \<and>
           interpolate (interp_alpha dr 2) (done_expert fd) (done_policy fd) = Inr i2 \<and>
           create_encoder m ext vs (noise_interp dr) (gail_NoiseLevel fd) i0 i1 i2 True = Inr r \<and>
           variables r = vs \<and>
           gradients (estimate r) (concat_input r) \<noteq> [] \<and>
           gm = gradient_mag_value (gradients (estimate r) (concat_input r))"
proof -
  from assms obtain i0 i1 i2 r
    where i: "interpolate (interp_alpha dr 0) (encoded_expert fd) (encoded_policy fd) = Inr i0"
      "interpolate (interp_alpha dr 1) (expert_action_value fd) (selected_actions fd) = Inr i1"
      "interpolate (interp_alpha dr 2) (done_expert fd) (done_policy fd) = Inr i2"
      and c: "create_encoder m ext vs (noise_interp dr) (gail_NoiseLevel fd) i0 i1 i2 True = Inr r"
      and g: "reduce_mean (map (\<lambda>n. (n - 1) ^ 2)
         (map (\<lambda>g. sqrt (sum_list (map (\<lambda>x. x ^ 2) g) + EPSILON))
            (gradients (estimate r) (concat_input r)))) = Inr gm"
    unfolding create_gradient_magnitude_eq bindE_eq_Inr by blast
  from g have "gradients (estimate r) (concat_input r) \<noteq> []"
    "gm = gradient_mag_value (gradients (estimate r) (concat_input r))"
    by (auto simp: reduce_mean_def gradient_mag_value_def comp_def split: if_splits)
  with i c create_encoder_reuse_store [OF c] show ?thesis
    by blast
qed

lemma tlog_Inr_pos:
  assumes "tlog t = Inr t'" and "r \<in> set t" and "x \<in> set r"
  shows "0 < x"
proof -
  from assms(1) have "map (\<lambda>r. sequenceE (map tf_log r)) t = map Inr t'"
    unfolding tlog_def by (rule sequenceE_Inr)
  with assms(2) obtain r' where "sequenceE (map tf_log r) = Inr r'"
    by (metis (no_types, lifting) imageE image_eqI list.set_map)
  then have "map tf_log r = map Inr r'"
    by (rule sequenceE_Inr)
  with assms(3) obtain y where "tf_log x = Inr y"
    by (metis (no_types, lifting) imageE image_eqI list.set_map)
  then show ?thesis
    by (simp add: tf_log_def split: if_splits)
qed

lemma discriminator_loss_columns_Inr:
  assumes d: "discriminator_loss (map (\<lambda>x. [x]) es) (map (\<lambda>x. [x]) ps) = Inr base"
    and len: "length es = length ps"
  shows "base = - ((\<Sum>(x, y)\<leftarrow>zip es ps. ln (x + EPSILON) + ln (1 - y + EPSILON)) / real (length es))"
proof -
  from d obtain le lp
    where 1: "tlog (tmap (\<lambda>x. x + EPSILON) (map (\<lambda>x. [x]) es)) = Inr le"
      and 2: "tlog (tmap (\<lambda>x. 1 - x + EPSILON) (map (\<lambda>x. [x]) ps)) = Inr lp"
    unfolding discriminator_loss_def bindE_eq_Inr by blast
  have pe: "0 < x + EPSILON" if "x \<in> set es" for x
    using tlog_Inr_pos [OF 1, of "[x + EPSILON]" "x + EPSILON"] that by (auto simp: tmap_def)
  have pp: "0 < 1 - x + EPSILON" if "x \<in> set ps" for x
    using tlog_Inr_pos [OF 2, of "[1 - x + EPSILON]" "1 - x + EPSILON"] that by (auto simp: tmap_def)
  have ne: "es \<noteq> []"
  proof
    assume "es = []"
    with len have "discriminator_loss (map (\<lambda>x. [x]) es) (map (\<lambda>x. [x]) ps) = Inl NonFinite"
      by (simp add: discriminator_loss_def tlog_def tmap_def bcast2_def bcast_def reduce_mean_def)
    with d show False by simp
  qed
  from discriminator_loss_columns [OF len ne pe pp] d show ?thesis
    by simp
qed

text \<open>
  C2. Whenever the total loss has a value, it is the base adversarial loss
  \<open>- mean (ln (expert_estimate + 1e-7) + ln (1 - policy_estimate + 1e-7))\<close>, plus
  \<open>beta * (KL - 0.5)\<close> exactly when the bottleneck is enabled, plus
  \<open>weight * gradient_penalty\<close> exactly when the weight is positive; with the bottleneck
  disabled and a weight that is not positive it is the base loss.
\<close>

theorem loss_composition:
  assumes "create_loss (GAILModel_init h e ua uv w) ext vs gradients dr fd net = Inr tot"
  shows "\<exists>base vail pen.
           discriminator_loss (expert_estimate net) (policy_estimate net) = Inr base \<and>
           tot = base + vail + pen \<and>
           (\<forall>es ps. expert_estimate net = map (\<lambda>x. [x]) es \<and> policy_estimate net = map (\<lambda>x. [x]) ps \<and>
                length es = length ps \<longrightarrow>
              base = - ((\<Sum>(x, y)\<leftarrow>zip es ps. ln (x + 1 / 10 ^ 7) + ln (1 - y + 1 / 10 ^ 7))
                        / real (length es))) \<and>
           (if uv then
              \<exists>ls me mp kl b. z_log_sigma_sq net = Some ls \<and> z_mean_expert net = Some me \<and>
                 z_mean_policy net = Some mp \<and> kl_loss ls me mp = Inr kl \<and> read_beta vs = Inr b \<and>
                 vail = b * (kl - 1 / 2)
            else vail = 0) \<and>
           (if 0 < w then
              \<exists>gm. create_gradient_magnitude (GAILModel_init h e ua uv w) ext vs gradients dr fd = Inr gm \<and>
                 pen = w * gm
            else pen = 0) \<and>
           (\<not> uv \<and> \<not> 0 < w \<longrightarrow> tot = base)"
proof -
  let ?m = "GAILModel_init h e ua uv w"
  have f: "use_vail ?m = uv" "gradient_penalty_weight ?m = w" "mutual_information ?m = 1 / 2"
    by (simp_all add: GAILModel_init_def)
  from create_loss_Inr [OF assms, unfolded f] obtain base vail pen
    where b: "discriminator_loss (expert_estimate net) (policy_estimate net) = Inr base"
      and t: "tot = base + vail + pen"
      and v: "if uv then
              \<exists>ls me mp kl b. z_log_sigma_sq net = Some ls \<and> z_mean_expert net = Some me \<and>
                 z_mean_policy net = Some mp \<and> kl_loss ls me mp = Inr kl \<and> read_beta vs = Inr b \<and>
                 vail = b * (kl - 1 / 2)
            else vail = 0"
      and p: "if 0 < w then
              \<exists>gm. create_gradient_magnitude ?m ext vs gradients dr fd = Inr gm \<and> pen = w * gm
            else pen = 0"
    by blast
  have c: "base = - ((\<Sum>(x, y)\<leftarrow>zip es ps. ln (x + 1 / 10 ^ 7) + ln (1 - y + 1 / 10 ^ 7))
                        / real (length es))"
    if "expert_estimate net = map (\<lambda>x. [x]) es \<and> policy_estimate net = map (\<lambda>x. [x]) ps \<and>
                length es = length ps" for es ps
    using discriminator_loss_columns_Inr [of es ps base] b that by (simp add: EPSILON_def)
  have z: "tot = base" if "\<not> uv \<and> \<not> 0 < w"
    using that t v p by simp
  from b t c v p z show ?thesis
    by blast
qed

lemma demo_interpolate: "interpolate (\<lambda>i j. 1 / 2) [[0]] [[0]] = Inr [[0]]"
  using interpolate_entries [of "[[0]]" "[[0]]" "\<lambda>i j. 1 / 2"] by simp

lemma demo_gradient_magnitude:
  "create_gradient_magnitude demo_model demo_ext demo_trained (\<lambda>est inp. tmap (\<lambda>x. 0) inp) demo_draws demo_feeds
     = Inr ((sqrt EPSILON - 1)\<^sup>2)"
  unfolding create_gradient_magnitude_eq
  by (simp add: demo_draws_def demo_feeds_def demo_interpolate demo_second_call reduce_mean_def
      tmap_def)

lemma demo_discriminator_loss:
  "discriminator_loss [[1 / 2]] [[1 / 2]] = Inr (- (ln (1 / 2 + EPSILON) + ln (1 / 2 + EPSILON)))"
  using discriminator_loss_columns [of "[1 / 2]" "[1 / 2]"] EPSILON_pos by simp

lemma demo_kl_loss:
  "\<exists>kl. kl_loss (replicate 128 (ln (1 + EPSILON))) [replicate 128 0] [replicate 128 0] = Inr kl"
  using kl_loss_entries [of "[replicate 128 0]" "[replicate 128 0]" "replicate 128 (ln (1 + EPSILON))"]
  by (simp add: reduce_mean_def)

theorem loss_composition_witness:
  "\<exists>tot base kl gm.
     create_loss demo_model demo_ext demo_trained (\<lambda>est inp. tmap (\<lambda>x. 0) inp)
       demo_draws demo_feeds demo_net = Inr tot \<and>
     discriminator_loss [[1 / 2]] [[1 / 2]] = Inr base \<and>
     kl_loss (replicate 128 (ln (1 + EPSILON))) [replicate 128 0] [replicate 128 0] = Inr kl \<and>
     create_gradient_magnitude demo_model demo_ext demo_trained
       (\<lambda>est inp. tmap (\<lambda>x. 0) inp) demo_draws demo_feeds = Inr gm \<and>
     tot = base + 1 * (kl - 1 / 2) + 10 * gm"
proof -
  let ?g = "(\<lambda>est inp. tmap (\<lambda>x. 0) inp) :: mat \<Rightarrow> mat \<Rightarrow> mat"
  obtain kl where kl: "kl_loss (replicate 128 (ln (1 + EPSILON))) [replicate 128 0] [replicate 128 0] = Inr kl"
    using demo_kl_loss by blast
  note gm = demo_gradient_magnitude
  have rb: "read_beta demo_trained = Inr 1"
    by (simp add: read_beta_def demo_trained_def demo_store_def)
  have f: "use_vail demo_model" "gradient_penalty_weight demo_model = 10"
    "mutual_information demo_model = 1 / 2"
    by (simp_all add: demo_model_def GAILModel_init_def)
  have n: "expert_estimate demo_net = [[1 / 2]]" "policy_estimate demo_net = [[1 / 2]]"
    "z_log_sigma_sq demo_net = Some (replicate 128 (ln (1 + EPSILON)))"
    "z_mean_expert demo_net = Some [replicate 128 0]" "z_mean_policy demo_net = Some [replicate 128 0]"
    by (simp_all add: demo_net_def)
  have c: "create_loss demo_model demo_ext demo_trained ?g demo_draws demo_feeds demo_net
             = Inr (1 * (kl - 1 / 2) + - (ln (1 / 2 + EPSILON) + ln (1 / 2 + EPSILON))
                    + 10 * (sqrt EPSILON - 1)\<^sup>2)"
    unfolding create_loss_def by (simp add: f n demo_discriminator_loss kl rb gm)
  from loss_composition [OF c [unfolded demo_model_def]]
  have "1 * (kl - 1 / 2) + - (ln (1 / 2 + EPSILON) + ln (1 / 2 + EPSILON))
                    + 10 * (sqrt EPSILON - 1)\<^sup>2
          = - (ln (1 / 2 + EPSILON) + ln (1 / 2 + EPSILON)) + 1 * (kl - 1 / 2)
              + 10 * (sqrt EPSILON - 1)\<^sup>2"
    using n kl rb gm demo_discriminator_loss
    by (auto simp: demo_model_def [symmetric])
  with c kl gm demo_discriminator_loss show ?thesis
    by simp
qed

text \<open>
  C3, as amended. Whenever the gradient penalty has a value: each of the three input
  tensors is interpolated with a weight tensor of that tensor's full shape, one drawn
  weight per entry, as \<open>alpha * expert + (1 - alpha) * policy\<close> entry by entry; the
  interpolated triple goes through the encoder with \<open>reuse\<close>, which creates no
  variable; and the penalty is the mean over the rows of the gradient of
  \<open>(sqrt (sum (grad^2) + 1e-7) - 1)^2\<close>. The theorem holds for every draw.
\<close>

theorem gradient_magnitude_steps:
  assumes "create_gradient_magnitude m ext vs gradients dr fd = Inr gm"
  shows "\<exists>i0 i1 i2 r.
           interpolate (interp_alpha dr 0) (encoded_expert fd) (encoded_policy fd) = Inr i0 \<and>
           interpolate (interp_alpha dr 1) (expert_action_value fd) (selected_actions fd) = Inr i1 \<and>
           interpolate (interp_alpha dr 2) (done_expert fd) (done_policy fd) = Inr i2 \<and>
           create_encoder m ext vs (noise_interp dr) (gail_NoiseLevel fd) i0 i1 i2 True = Inr r \<and>
           variables r = vs \<and>
           gradients (estimate r) (concat_input r) \<noteq> [] \<and>
           gm = (\<Sum>g\<leftarrow>gradients (estimate r) (concat_input r).
                   (sqrt ((\<Sum>x\<leftarrow>g. x\<^sup>2) + 1 / 10 ^ 7) - 1)\<^sup>2)
                / real (length (gradients (estimate r) (concat_input r))) \<and>
           (\<forall>d ex po. length ex = length po \<and> (\<forall>i<length ex. length (ex ! i) = length (po ! i)) \<longrightarrow>
              interpolate d ex po
                = Inr (map (\<lambda>i. map (\<lambda>j. d i j * ex ! i ! j + (1 - d i j) * po ! i ! j)
                                  [0..<length (ex ! i)])
                         [0..<length ex]))"
proof -
  from create_gradient_magnitude_Inr [OF assms] obtain i0 i1 i2 r
    where "interpolate (interp_alpha dr 0) (encoded_expert fd) (encoded_policy fd) = Inr i0"
      "interpolate (interp_alpha dr 1) (expert_action_value fd) (selected_actions fd) = Inr i1"
      "interpolate (interp_alpha dr 2) (done_expert fd) (done_policy fd) = Inr i2"
      "create_encoder m ext vs (noise_interp dr) (gail_NoiseLevel fd) i0 i1 i2 True = Inr r"
      "variables r = vs" "gradients (estimate r) (concat_input r) \<noteq> []"
      "gm = gradient_mag_value (gradients (estimate r) (concat_input r))"
    by blast
  moreover have "interpolate d ex po
                = Inr (map (\<lambda>i. map (\<lambda>j. d i j * ex ! i ! j + (1 - d i j) * po ! i ! j)
                                  [0..<length (ex ! i)])
                         [0..<length ex])"
    if "length ex = length po \<and> (\<forall>i<length ex. length (ex ! i) = length (po ! i))" for d ex po
    using that by (intro interpolate_entries) simp_all
  ultimately show ?thesis
    unfolding gradient_mag_value_def EPSILON_def by blast
qed

theorem gradient_magnitude_steps_witness:
  "create_gradient_magnitude demo_model demo_ext demo_trained (\<lambda>est inp. tmap (\<lambda>x. 0) inp) demo_draws demo_feeds
     = Inr ((sqrt (1 / 10 ^ 7) - 1)\<^sup>2) \<and>
   (\<exists>r. create_encoder demo_model demo_ext demo_trained (\<lambda>i j. 0) 1 [[0]] [[0]] [[0]] True = Inr r \<and>
        variables r = demo_trained) \<and>
   interpolate (\<lambda>i j. if j = 0 then 1 / 4 else 3 / 4) [[1, 1]] [[0, 0]] = Inr [[1 / 4, 3 / 4]]"
proof -
  have g: "create_gradient_magnitude demo_model demo_ext demo_trained (\<lambda>est inp. tmap (\<lambda>x. 0) inp) demo_draws demo_feeds
     = Inr ((sqrt EPSILON - 1)\<^sup>2)"
    by (rule demo_gradient_magnitude)
  from gradient_magnitude_steps [OF g]
  have i: "\<forall>d ex po. length ex = length po \<and> (\<forall>i<length ex. length (ex ! i) = length (po ! i)) \<longrightarrow>
              interpolate d ex po
                = Inr (map (\<lambda>i. map (\<lambda>j. d i j * ex ! i ! j + (1 - d i j) * po ! i ! j)
                                  [0..<length (ex ! i)])
                         [0..<length ex])"
    by blast
  have "interpolate (\<lambda>i j. if j = 0 then 1 / 4 else 3 / 4) [[1, 1]] [[0, 0]] = Inr [[1 / 4, 3 / 4]]"
    using i [rule_format, of "[[1, 1]]" "[[0, 0]]" "\<lambda>i j. if j = 0 then 1 / 4 else 3 / 4"]
    by (simp add: upt_rec)
  with g demo_second_call [of 0 1] show ?thesis
    by (simp add: EPSILON_def)
qed

text \<open>
  C3 as stated fails: the weights are drawn per entry, not per sample. For one sample
  with two features, expert [1, 1] and policy [0, 0], the draw (1/4, 3/4) interpolates
  to [1/4, 3/4], which no single weight for the sample produces.
\<close>

theorem interpolation_weight_counterexample:
  "interpolate (\<lambda>i j. if j = 0 then 1 / 4 else 3 / 4) [[1, 1]] [[0, 0]] = Inr [[1 / 4, 3 / 4]] \<and>
   (\<forall>i j. 0 \<le> (if j = 0 then 1 / 4 else 3 / 4 :: real) \<and> (if j = 0 then 1 / 4 else 3 / 4 :: real) < 1) \<and>
   (\<forall>w. per_sample_interpolation w [[1, 1]] [[0, 0]] \<noteq> [[1 / 4, 3 / 4]])"
proof -
  have "interpolate (\<lambda>i j. if j = 0 then 1 / 4 else 3 / 4) [[1, 1]] [[0, 0]] = Inr [[1 / 4, 3 / 4]]"
    using interpolate_entries [of "[[1, 1]]" "[[0, 0]]" "\<lambda>i j. if j = 0 then 1 / 4 else 3 / 4"]
    by (simp add: upt_rec)
  moreover have "per_sample_interpolation w [[1, 1]] [[0, 0]] \<noteq> [[1 / 4, 3 / 4]]" for w
    by (auto simp: per_sample_interpolation_def)
  ultimately show ?thesis
    by simp
qed

subsection \<open>create\_network: the two encoder calls\<close>






end
